theory Spec2Isabelle
  imports Complex_Main
begin

section \<open>Data model\<close>

text \<open>
  Mongo documents are records. An \<open>ObjectId\<close> is a natural number; a \<open>Date\<close> is its
  number of milliseconds since the epoch, an integer, so that the difference of two dates
  is what JavaScript computes for \<open>d1 - d2\<close>.
\<close>

type_synonym object_id = nat
type_synonym date = int

record client_doc =
  c_id :: object_id
  c_name :: string
  c_phone :: "string option"

record user_doc =
  u_id :: object_id
  firstName :: string
  lastName :: string

record otp_doc =
  client :: object_id
  otp :: string
  phone :: string
  createdAt :: date
  expiresAt :: date
  attempts :: int
  isUsed :: bool

datatype notification_type = otp_sent | otp_resent | otp_verified

record notification_doc =
  n_type :: notification_type
  salesman :: object_id
  n_client :: object_id
  clientName :: string
  clientPhone :: string
  salesmanName :: string
  message :: string
  status :: string
  otpId :: object_id
  deliveryMethod :: string
  isRead :: bool

text \<open>
  The database: the three collections the OTP controller touches. A collection is the list
  of its documents in insertion order. Documents of the OTP collection are never deleted,
  so the position of a document in the list is stable and stands for its \<open>_id\<close>.
\<close>

record db =
  clients :: "client_doc list"
  otps :: "otp_doc list"
  notifications :: "notification_doc list"

text \<open>
  \<open>req.body.otp\<close> is the JSON value the caller sent: a string or a number. Numbers are the
  integers that JavaScript prints in plain decimal notation; other JSON values are not
  modelled.
\<close>

datatype json = JString string | JNumber int

text \<open>
  What a handler reads from the request: the outcome of \<open>validationResult(req)\<close>,
  \<open>req.body.clientId\<close>, \<open>req.body.otp\<close>, \<open>req.params.clientId\<close> and \<open>req.user\<close>.
\<close>

record request =
  validationErrors :: "string list"
  clientId :: object_id
  otp_body :: json
  paramsClientId :: object_id
  req_user :: "user_doc option"

text \<open>
  What a handler reads from its environment: the clock (\<open>new Date()\<close>, one reading per
  request) and the outcome of the random generator \<open>Otp.generateOTP()\<close>.
\<close>

record env =
  now :: date
  generated :: string

text \<open>
  The JSON answers of the controller, one constructor per \<open>res.json\<close> call:
  \<^item> \<open>ValidationFailed\<close>: 400, "Validation failed" with the errors;
  \<^item> \<open>ClientNotFound\<close>: 404; \<open>NoPhoneNumber\<close>: 400;
  \<^item> \<open>OtpGenerated\<close>: success of issue and resend, with \<open>clientId\<close>, \<open>clientName\<close>,
    \<open>phone\<close>, \<open>expiresAt\<close> and \<open>otp\<close>;
  \<^item> \<open>InvalidOTP\<close>: 400, "Invalid OTP", with \<open>attemptsLeft\<close> where the answer has it;
  \<^item> \<open>OtpExpired\<close>: 400, "OTP has expired or exceeded maximum attempts";
  \<^item> \<open>OtpVerified\<close>: success of verification, with \<open>clientId\<close>, \<open>clientName\<close>,
    \<open>phone\<close> and \<open>verifiedAt\<close>;
  \<^item> \<open>PleaseWait\<close>: 429, with the seconds to wait;
  \<^item> \<open>NoOtpFound\<close>: success, \<open>hasActiveOTP: false\<close>, "No OTP found";
  \<^item> \<open>OtpStatus\<close>: success, with \<open>hasActiveOTP\<close>, \<open>isUsed\<close>, \<open>attempts\<close>,
    \<open>timeLeft\<close> and \<open>expiresAt\<close>;
  \<^item> \<open>ServerError\<close>: 500, the answer of every \<open>catch\<close>.
\<close>

datatype response =
    ValidationFailed "string list"
  | ClientNotFound
  | NoPhoneNumber
  | OtpGenerated object_id string string date string
  | InvalidOTP "int option"
  | OtpExpired
  | OtpVerified object_id string "string option" date
  | PleaseWait int
  | NoOtpFound
  | OtpStatus bool bool int int date
  | ServerError

fun http_status :: "response \<Rightarrow> nat" where
  "http_status (ValidationFailed _) = 400"
| "http_status ClientNotFound = 404"
| "http_status NoPhoneNumber = 400"
| "http_status (OtpGenerated _ _ _ _ _) = 200"
| "http_status (InvalidOTP _) = 400"
| "http_status OtpExpired = 400"
| "http_status (OtpVerified _ _ _ _) = 200"
| "http_status (PleaseWait _) = 429"
| "http_status NoOtpFound = 200"
| "http_status (OtpStatus _ _ _ _ _) = 200"
| "http_status ServerError = 500"

section \<open>Phone numbers\<close>

definition is_digit :: "char \<Rightarrow> bool" where
  "is_digit c = (c \<in> set ''0123456789'')"

text \<open>\<open>phone.replace(/\D/g, '')\<close>: drop every character that is not a decimal digit.\<close>

fun replace_non_digits :: "string \<Rightarrow> string" where
  "replace_non_digits [] = []"
| "replace_non_digits (c # cs) =
     (if is_digit c then c # replace_non_digits cs else replace_non_digits cs)"

definition formatPhoneNumber :: "string \<Rightarrow> string" where
  "formatPhoneNumber phone_in =
     (let cleanPhone = replace_non_digits phone_in
      in if length cleanPhone = 10 then ''91'' @ cleanPhone else cleanPhone)"

section \<open>The OTP model\<close>

text \<open>
  Modelled from the spec: the schema of \<open>models/Otp.js\<close> is not among the sources. A new
  record starts with \<open>attempts = 0\<close> and \<open>isUsed = false\<close>, is stamped with the time of
  its creation and expires five minutes later.
\<close>

definition otp_ttl :: int where
  "otp_ttl = 5 * 60 * 1000"

definition new_Otp :: "object_id \<Rightarrow> string \<Rightarrow> string \<Rightarrow> date \<Rightarrow> otp_doc" where
  "new_Otp cid code ph t =
     \<lparr>client = cid, otp = code, phone = ph, createdAt = t, expiresAt = t + otp_ttl,
      attempts = 0, isUsed = False\<rparr>"

text \<open>
  Modelled from the spec: the method \<open>isValid\<close> of \<open>models/Otp.js\<close> is not among the
  sources. A record is valid iff it is unused, not yet expired and has fewer than 3 attempts.
\<close>

definition isValid :: "otp_doc \<Rightarrow> date \<Rightarrow> bool" where
  "isValid d t = (\<not> isUsed d \<and> t < expiresAt d \<and> attempts d < 3)"

section \<open>The submitted code\<close>

text \<open>\<open>Number.prototype.toString\<close> on an integer: its decimal digits, with a sign.\<close>

function digits :: "nat \<Rightarrow> string" where
  "digits n =
     (if n < 10 then [''0123456789'' ! n]
      else digits (n div 10) @ [''0123456789'' ! (n mod 10)])"
  by pat_completeness auto
termination
  by (relation "measure id") auto

declare digits.simps [simp del]

definition toString :: "int \<Rightarrow> string" where
  "toString n = (if n < 0 then CHR ''-'' # digits (nat (- n)) else digits (nat n))"

text \<open>
  Modelled from the spec: the schema of \<open>models/Otp.js\<close> is not among the sources; the
  code is a string there, so Mongoose casts the value of a query filter on \<open>otp\<close> to a
  string: a string stays as it is, a number is printed.
\<close>

fun castString :: "json \<Rightarrow> string" where
  "castString (JString v) = v"
| "castString (JNumber n) = toString n"

text \<open>
  \<open>otpRecord.otp !== otp\<close>: strict inequality does not convert. The stored code is a
  string, so it differs from every number, and from a string when the characters differ.
\<close>

fun strict_neq :: "string \<Rightarrow> json \<Rightarrow> bool" where
  "strict_neq stored (JString v) = (stored \<noteq> v)"
| "strict_neq stored (JNumber n) = True"

section \<open>Queries\<close>

definition findById :: "object_id \<Rightarrow> db \<Rightarrow> client_doc option" where
  "findById cid s = find (\<lambda>c. c_id c = cid) (clients s)"

text \<open>
  \<open>Otp.findOne(filter).sort({ createdAt: -1 })\<close>: of the documents that pass the filter,
  the one created last, with its position. Among documents created at the same millisecond
  the one stored first is taken.
\<close>

fun pick_latest :: "(nat \<times> otp_doc) list \<Rightarrow> (nat \<times> otp_doc) option" where
  "pick_latest [] = None"
| "pick_latest (x # xs) =
     (case pick_latest xs of
        None \<Rightarrow> Some x
      | Some y \<Rightarrow> if createdAt (snd x) < createdAt (snd y) then Some y else Some x)"

definition findOne_latest :: "(otp_doc \<Rightarrow> bool) \<Rightarrow> otp_doc list \<Rightarrow> (nat \<times> otp_doc) option" where
  "findOne_latest P ds = pick_latest (filter (\<lambda>(i, d). P d) (enumerate 0 ds))"

text \<open>\<open>Otp.updateMany({ client: clientId, isUsed: false }, { isUsed: true })\<close>.\<close>

definition updateMany :: "object_id \<Rightarrow> otp_doc list \<Rightarrow> otp_doc list" where
  "updateMany cid ds =
     map (\<lambda>d. if client d = cid \<and> \<not> isUsed d then d\<lparr>isUsed := True\<rparr> else d) ds"

text \<open>
  \<open>notification.save()\<close> validates the document against the schema of
  \<open>models/Notification.js\<close>: a required string must not be empty. A failed validation
  throws, and the handler's \<open>catch\<close> answers with status 500.
\<close>

definition validate_notification :: "notification_doc \<Rightarrow> bool" where
  "validate_notification n =
     (clientName n \<noteq> [] \<and> clientPhone n \<noteq> [] \<and> salesmanName n \<noteq> [] \<and> message n \<noteq> [])"

text \<open>\<open>Math.ceil(a / 1000)\<close> and \<open>Math.floor(a / 1000)\<close> on an integer number of milliseconds.\<close>

definition ceil_seconds :: "int \<Rightarrow> int" where
  "ceil_seconds a = - ((- a) div 1000)"

definition floor_seconds :: "int \<Rightarrow> int" where
  "floor_seconds a = a div 1000"

section \<open>The controller\<close>

definition sendOTP :: "request \<Rightarrow> env \<Rightarrow> db \<Rightarrow> db \<times> response" where
  "sendOTP req e s =
     (if validationErrors req \<noteq> [] then (s, ValidationFailed (validationErrors req))
      else case findById (clientId req) s of
        None \<Rightarrow> (s, ClientNotFound)
      | Some c \<Rightarrow>
         (case c_phone c of
            None \<Rightarrow> (s, NoPhoneNumber)
          | Some ph \<Rightarrow>
             if ph = [] then (s, NoPhoneNumber)
             else
               let otpCode = generated e;
                   marked = updateMany (clientId req) (otps s);
                   doc = new_Otp (clientId req) otpCode ph (now e);
                   s1 = s\<lparr>otps := marked @ [doc]\<rparr>;
                   answer = OtpGenerated (c_id c) (c_name c) ph (expiresAt doc) otpCode
               in case req_user req of
                    None \<Rightarrow> (s1, answer)
                  | Some u \<Rightarrow>
                     let n = \<lparr>n_type = otp_sent, salesman = u_id u, n_client = c_id c,
                              clientName = c_name c, clientPhone = ph,
                              salesmanName = firstName u @ '' '' @ lastName u,
                              message = ''OTP sent to '' @ c_name c @ '' ('' @ ph @ '')'',
                              status = ''success'', otpId = length marked,
                              deliveryMethod = ''Testing Mode (No WhatsApp)'',
                              isRead = False\<rparr>
                     in if validate_notification n
                        then (s1\<lparr>notifications := notifications s1 @ [n]\<rparr>, answer)
                        else (s1, ServerError)))"

definition verifyOTP :: "request \<Rightarrow> env \<Rightarrow> db \<Rightarrow> db \<times> response" where
  "verifyOTP req e s =
     (if validationErrors req \<noteq> [] then (s, ValidationFailed (validationErrors req))
      else case findOne_latest
                  (\<lambda>d. client d = clientId req \<and> otp d = castString (otp_body req) \<and> \<not> isUsed d) (otps s) of
        None \<Rightarrow> (s, InvalidOTP None)
      | Some (i, otpRecord) \<Rightarrow>
         if \<not> isValid otpRecord (now e)
         then (s\<lparr>otps := (otps s)[i := otpRecord\<lparr>isUsed := True\<rparr>]\<rparr>, OtpExpired)
         else
           let counted = otpRecord\<lparr>attempts := attempts otpRecord + 1\<rparr>
           in if strict_neq (otp counted) (otp_body req)
              then (s\<lparr>otps := (otps s)[i := counted]\<rparr>, InvalidOTP (Some (3 - attempts counted)))
              else
                let s1 = s\<lparr>otps := (otps s)[i := counted\<lparr>isUsed := True\<rparr>]\<rparr>
                in case findById (clientId req) s1 of
                     None \<Rightarrow> (s1, ServerError)
                   | Some c \<Rightarrow> (s1, OtpVerified (c_id c) (c_name c) (c_phone c) (now e)))"

definition resendOTP :: "request \<Rightarrow> env \<Rightarrow> db \<Rightarrow> db \<times> response" where
  "resendOTP req e s =
     (if validationErrors req \<noteq> [] then (s, ValidationFailed (validationErrors req))
      else case findById (clientId req) s of
        None \<Rightarrow> (s, ClientNotFound)
      | Some c \<Rightarrow>
         (case c_phone c of
            None \<Rightarrow> (s, NoPhoneNumber)
          | Some ph \<Rightarrow>
             if ph = [] then (s, NoPhoneNumber)
             else
               let existingOTP =
                     findOne_latest (\<lambda>d. client d = clientId req \<and> \<not> isUsed d) (otps s);
                   minInterval = 30 * 1000;
                   throttled =
                     (case existingOTP of
                        None \<Rightarrow> None
                      | Some (i, d) \<Rightarrow>
                         if isValid d (now e) \<and> now e - createdAt d < minInterval
                         then Some (ceil_seconds (minInterval - (now e - createdAt d)))
                         else None)
               in case throttled of
                    Some waitTime \<Rightarrow> (s, PleaseWait waitTime)
                  | None \<Rightarrow>
                     let otpCode = generated e;
                         marked = updateMany (clientId req) (otps s);
                         doc = new_Otp (clientId req) otpCode ph (now e);
                         s1 = s\<lparr>otps := marked @ [doc]\<rparr>;
                         answer = OtpGenerated (c_id c) (c_name c) ph (expiresAt doc) otpCode
                     in case req_user req of
                          None \<Rightarrow> (s1, answer)
                        | Some u \<Rightarrow>
                           let n = \<lparr>n_type = otp_resent, salesman = u_id u, n_client = c_id c,
                                    clientName = c_name c, clientPhone = ph,
                                    salesmanName = firstName u @ '' '' @ lastName u,
                                    message = ''OTP resent to '' @ c_name c @ '' ('' @ ph @ '')'',
                                    status = ''success'', otpId = length marked,
                                    deliveryMethod = ''Testing Mode (No WhatsApp)'',
                                    isRead = False\<rparr>
                           in if validate_notification n
                              then (s1\<lparr>notifications := notifications s1 @ [n]\<rparr>, answer)
                              else (s1, ServerError)))"

definition getOTPStatus :: "request \<Rightarrow> env \<Rightarrow> db \<Rightarrow> db \<times> response" where
  "getOTPStatus req e s =
     (case findOne_latest (\<lambda>d. client d = paramsClientId req) (otps s) of
        None \<Rightarrow> (s, NoOtpFound)
      | Some (i, otpRecord) \<Rightarrow>
         (s, OtpStatus (isValid otpRecord (now e)) (isUsed otpRecord) (attempts otpRecord)
               (max 0 (floor_seconds (expiresAt otpRecord - now e))) (expiresAt otpRecord)))"

section \<open>Sequences of requests\<close>

datatype operation =
    SendOTP request env
  | VerifyOTP request env
  | ResendOTP request env
  | GetOTPStatus request env

fun step :: "operation \<Rightarrow> db \<Rightarrow> db \<times> response" where
  "step (SendOTP req e) s = sendOTP req e s"
| "step (VerifyOTP req e) s = verifyOTP req e s"
| "step (ResendOTP req e) s = resendOTP req e s"
| "step (GetOTPStatus req e) s = getOTPStatus req e s"

fun run :: "operation list \<Rightarrow> db \<Rightarrow> db" where
  "run [] s = s"
| "run (x # xs) s = run xs (fst (step x s))"

text \<open>The operations that store a new record with code \<open>code\<close> for client \<open>cid\<close>.\<close>

fun issues :: "object_id \<Rightarrow> string \<Rightarrow> operation \<Rightarrow> bool" where
  "issues cid code (SendOTP req e) = (clientId req = cid \<and> generated e = code)"
| "issues cid code (ResendOTP req e) = (clientId req = cid \<and> generated e = code)"
| "issues cid code _ = False"

text \<open>The records of a client that are still unused.\<close>

definition active :: "object_id \<Rightarrow> otp_doc list \<Rightarrow> otp_doc list" where
  "active cid ds = filter (\<lambda>d. client d = cid \<and> \<not> isUsed d) ds"

text \<open>
  The unused records of a client are its most recent ones: no record of the client was
  created later than an unused one.
\<close>

definition newest_unused :: "object_id \<Rightarrow> otp_doc list \<Rightarrow> bool" where
  "newest_unused cid ds =
     (\<forall>d\<in>set ds. client d = cid \<and> \<not> isUsed d
        \<longrightarrow> (\<forall>d'\<in>set ds. client d' = cid \<longrightarrow> createdAt d' \<le> createdAt d))"

text \<open>The clock reading of a request, and a clock that never runs backwards.\<close>

fun clock_of :: "operation \<Rightarrow> date" where
  "clock_of (SendOTP req e) = now e"
| "clock_of (VerifyOTP req e) = now e"
| "clock_of (ResendOTP req e) = now e"
| "clock_of (GetOTPStatus req e) = now e"

fun monotone_from :: "date \<Rightarrow> operation list \<Rightarrow> bool" where
  "monotone_from t [] = True"
| "monotone_from t (x # xs) = (t \<le> clock_of x \<and> monotone_from (clock_of x) xs)"

text \<open>Every OTP record belongs to a client that has a document.\<close>

definition clients_on_file :: "db \<Rightarrow> bool" where
  "clients_on_file s = list_all (\<lambda>d. findById (client d) s \<noteq> None) (otps s)"

section \<open>Example data\<close>

definition example_client :: client_doc where
  "example_client = \<lparr>c_id = 1, c_name = ''Asha'', c_phone = Some ''9876543210''\<rparr>"

definition example_user :: user_doc where
  "example_user = \<lparr>u_id = 7, firstName = ''Ravi'', lastName = ''Shah''\<rparr>"

definition example_db :: db where
  "example_db = \<lparr>clients = [example_client], otps = [], notifications = []\<rparr>"

definition example_request :: "json \<Rightarrow> user_doc option \<Rightarrow> request" where
  "example_request code u =
     \<lparr>validationErrors = [], clientId = 1, otp_body = code, paramsClientId = 1, req_user = u\<rparr>"

definition example_env :: "date \<Rightarrow> string \<Rightarrow> env" where
  "example_env t code = \<lparr>now = t, generated = code\<rparr>"

lemmas example_defs =
  example_client_def example_user_def example_db_def example_request_def example_env_def

section \<open>Phone-number normalisation\<close>

lemma replace_non_digits_filter: "replace_non_digits p = filter is_digit p"
  by (induction p) auto

text \<open>
  Claim C10. \<open>formatPhoneNumber\<close> keeps exactly the decimal digits of its input, in order;
  when there are exactly 10 of them it puts the country code 91 in front, otherwise it
  returns the digits as they are. The result consists of digits only, and
  \<open>9876543210\<close> becomes \<open>919876543210\<close>.
\<close>

theorem formatPhoneNumber_digits:
  "(\<forall>c\<in>set (formatPhoneNumber p). is_digit c)
   \<and> (length (filter is_digit p) = 10 \<longrightarrow> formatPhoneNumber p = ''91'' @ filter is_digit p)
   \<and> (length (filter is_digit p) \<noteq> 10 \<longrightarrow> formatPhoneNumber p = filter is_digit p)
   \<and> formatPhoneNumber ''9876543210'' = ''919876543210''"
proof (intro conjI impI)
  have clean: "replace_non_digits p = filter is_digit p"
    by (rule replace_non_digits_filter)
  show "\<forall>c\<in>set (formatPhoneNumber p). is_digit c"
    unfolding formatPhoneNumber_def clean by (auto simp: Let_def is_digit_def)
  show "formatPhoneNumber p = ''91'' @ filter is_digit p" if "length (filter is_digit p) = 10"
    using that unfolding formatPhoneNumber_def clean by (simp add: Let_def)
  show "formatPhoneNumber p = filter is_digit p" if "length (filter is_digit p) \<noteq> 10"
    using that unfolding formatPhoneNumber_def clean by (simp add: Let_def)
  show "formatPhoneNumber ''9876543210'' = ''919876543210''"
    by (simp add: formatPhoneNumber_def is_digit_def)
qed

theorem formatPhoneNumber_digits_witness:
  "formatPhoneNumber ''+91 98765-43210'' = ''919876543210''
   \<and> formatPhoneNumber ''(987) 654 3210'' = ''919876543210''
   \<and> formatPhoneNumber ''12345'' = ''12345''"
  using formatPhoneNumber_digits[of "''+91 98765-43210''"]
    formatPhoneNumber_digits[of "''(987) 654 3210''"]
    formatPhoneNumber_digits[of "''12345''"]
  by (simp add: is_digit_def)

section \<open>Facts about the queries\<close>

lemma pick_latest_mem: "pick_latest xs = Some x \<Longrightarrow> x \<in> set xs"
  by (induction xs arbitrary: x) (auto split: option.splits if_splits)

lemma pick_latest_None: "pick_latest xs = None \<longleftrightarrow> xs = []"
  by (cases xs) (auto split: option.splits)

lemma pick_latest_max:
  "pick_latest xs = Some x \<Longrightarrow> y \<in> set xs \<Longrightarrow> createdAt (snd y) \<le> createdAt (snd x)"
  by (induction xs arbitrary: x) (fastforce split: option.splits if_splits simp: pick_latest_None)+

lemma findOne_latest_Some:
  assumes "findOne_latest P ds = Some (i, d)"
  shows "i < length ds \<and> ds ! i = d \<and> P d"
proof -
  from assms have "(i, d) \<in> set (filter (\<lambda>(i, d). P d) (enumerate 0 ds))"
    unfolding findOne_latest_def by (rule pick_latest_mem)
  then show ?thesis by (auto simp: in_set_enumerate_eq)
qed

lemma findOne_latest_None: "findOne_latest P ds = None \<longleftrightarrow> (\<forall>d\<in>set ds. \<not> P d)"
proof -
  have "findOne_latest P ds = None \<longleftrightarrow> (\<forall>x\<in>set (enumerate 0 ds). \<not> P (snd x))"
    unfolding findOne_latest_def pick_latest_None filter_empty_conv by (auto simp: case_prod_beta)
  also have "\<dots> \<longleftrightarrow> (\<forall>d\<in>snd ` set (enumerate 0 ds). \<not> P d)"
    by blast
  also have "snd ` set (enumerate 0 ds) = set ds"
    by (metis list.set_map map_snd_enumerate)
  finally show ?thesis .
qed

lemma findOne_latest_max:
  assumes "findOne_latest P ds = Some (i, d)" and "d' \<in> set ds" and "P d'"
  shows "createdAt d' \<le> createdAt d"
proof -
  from assms(2) obtain j where j: "j < length ds" "ds ! j = d'"
    by (auto simp: in_set_conv_nth)
  with assms(3) have "(j, d') \<in> set (filter (\<lambda>(i, d). P d) (enumerate 0 ds))"
    by (auto simp: in_set_enumerate_eq)
  with assms(1) show ?thesis
    unfolding findOne_latest_def using pick_latest_max by fastforce
qed

lemma findOne_latest_newest:
  assumes "i < length ds" "P (ds ! i)"
    and "\<forall>j<length ds. j \<noteq> i \<and> P (ds ! j) \<longrightarrow> createdAt (ds ! j) < createdAt (ds ! i)"
  shows "findOne_latest P ds = Some (i, ds ! i)"
proof -
  from assms(1,2) have "findOne_latest P ds \<noteq> None"
    unfolding findOne_latest_None using nth_mem by blast
  then obtain k r where f: "findOne_latest P ds = Some (k, r)" by auto
  from findOne_latest_Some[OF f] have k: "k < length ds" "ds ! k = r" "P r" by simp_all
  from findOne_latest_max[OF f, of "ds ! i"] assms(1,2)
  have "createdAt (ds ! i) \<le> createdAt r" by simp
  with assms(3) k have "k = i" by force
  with f k show ?thesis by simp
qed

lemma no_young_valid_lookup:
  assumes "\<not> (\<exists>r\<in>set ds. client r = cid \<and> isValid r t \<and> t - createdAt r < 30 * 1000)"
  shows "\<not> (\<exists>i d. findOne_latest (\<lambda>d. client d = cid \<and> \<not> isUsed d) ds = Some (i, d)
               \<and> isValid d t \<and> t - createdAt d < 30 * 1000)"
proof
  assume "\<exists>i d. findOne_latest (\<lambda>d. client d = cid \<and> \<not> isUsed d) ds = Some (i, d)
               \<and> isValid d t \<and> t - createdAt d < 30 * 1000"
  then obtain i d where f: "findOne_latest (\<lambda>d. client d = cid \<and> \<not> isUsed d) ds = Some (i, d)"
    and d: "isValid d t" "t - createdAt d < 30 * 1000" by blast
  from findOne_latest_Some[OF f] have "d \<in> set ds" "client d = cid" by auto
  with d assms show False by blast
qed

lemma updateMany_used: "\<forall>d\<in>set (updateMany cid ds). client d = cid \<longrightarrow> isUsed d"
proof
  fix d assume "d \<in> set (updateMany cid ds)"
  then obtain x where x: "d = (if client x = cid \<and> \<not> isUsed x then x\<lparr>isUsed := True\<rparr> else x)"
    unfolding updateMany_def set_map by blast
  show "client d = cid \<longrightarrow> isUsed d"
    unfolding x by simp
qed

lemma active_updateMany_same: "active cid (updateMany cid ds) = []"
  by (induction ds) (auto simp: active_def updateMany_def)

lemma active_updateMany_other: "c \<noteq> cid \<Longrightarrow> active c (updateMany cid ds) = active c ds"
  by (induction ds) (auto simp: active_def updateMany_def)

lemma active_after_issue:
  "active cid (updateMany cid ds @ [new_Otp cid code ph t]) = [new_Otp cid code ph t]"
  "c \<noteq> cid \<Longrightarrow> active c (updateMany cid ds @ [new_Otp cid code ph t]) = active c ds"
proof -
  have new: "client (new_Otp cid code ph t) = cid" "\<not> isUsed (new_Otp cid code ph t)"
    by (simp_all add: new_Otp_def)
  show "active cid (updateMany cid ds @ [new_Otp cid code ph t]) = [new_Otp cid code ph t]"
    using new by (simp add: active_def active_updateMany_same[unfolded active_def])
  show "active c (updateMany cid ds @ [new_Otp cid code ph t]) = active c ds" if "c \<noteq> cid"
    using new that by (simp add: active_def active_updateMany_other[unfolded active_def])
qed

lemma ceil_seconds_ceiling: "ceil_seconds a = \<lceil>real_of_int a / 1000\<rceil>"
  using ceiling_divide_eq_div[of a 1000, where ?'a = real] by (simp add: ceil_seconds_def)

lemma floor_seconds_floor: "floor_seconds a = \<lfloor>real_of_int a / 1000\<rfloor>"
  using floor_divide_of_int_eq[of a 1000, where ?'a = real] by (simp add: floor_seconds_def)

lemma ceil_seconds_bounds: "0 < a \<Longrightarrow> a \<le> 30000 \<Longrightarrow> 1 \<le> ceil_seconds a \<and> ceil_seconds a \<le> 30"
  unfolding ceil_seconds_def by linarith

section \<open>The paths of issue and resend\<close>

lemma findById_Some: "findById cid s = Some c \<Longrightarrow> c_id c = cid \<and> c \<in> set (clients s)"
  by (auto simp: findById_def find_Some_iff)

lemma findById_otps_update [simp]: "findById cid (s\<lparr>otps := ds\<rparr>) = findById cid s"
  by (simp add: findById_def)

lemma sendOTP_issue:
  assumes "validationErrors req = []" "findById (clientId req) s = Some c"
    "c_phone c = Some ph" "ph \<noteq> []"
  shows "otps (fst (sendOTP req e s)) =
           updateMany (clientId req) (otps s) @ [new_Otp (clientId req) (generated e) ph (now e)]"
    and "clients (fst (sendOTP req e s)) = clients s"
    and "snd (sendOTP req e s) =
           (if req_user req \<noteq> None \<and> c_name c = [] then ServerError
            else OtpGenerated (c_id c) (c_name c) ph (now e + otp_ttl) (generated e))"
    and "notifications (fst (sendOTP req e s)) =
           (case req_user req of
              None \<Rightarrow> notifications s
            | Some u \<Rightarrow>
               if c_name c = [] then notifications s
               else notifications s @
                 [\<lparr>n_type = otp_sent, salesman = u_id u, n_client = c_id c,
                   clientName = c_name c, clientPhone = ph,
                   salesmanName = firstName u @ '' '' @ lastName u,
                   message = ''OTP sent to '' @ c_name c @ '' ('' @ ph @ '')'',
                   status = ''success'', otpId = length (otps s),
                   deliveryMethod = ''Testing Mode (No WhatsApp)'', isRead = False\<rparr>])"
  using assms
  by (simp_all add: sendOTP_def Let_def new_Otp_def validate_notification_def updateMany_def
      split: option.splits)

lemma resendOTP_throttled:
  assumes "validationErrors req = []" "findById (clientId req) s = Some c"
    "c_phone c = Some ph" "ph \<noteq> []"
    "findOne_latest (\<lambda>d. client d = clientId req \<and> \<not> isUsed d) (otps s) = Some (i, d)"
    "isValid d (now e)" "now e - createdAt d < 30 * 1000"
  shows "resendOTP req e s = (s, PleaseWait (ceil_seconds (30 * 1000 - (now e - createdAt d))))"
  using assms by (simp add: resendOTP_def Let_def)

lemma resendOTP_issue:
  assumes "validationErrors req = []" "findById (clientId req) s = Some c"
    "c_phone c = Some ph" "ph \<noteq> []"
    "\<not> (\<exists>i d. findOne_latest (\<lambda>d. client d = clientId req \<and> \<not> isUsed d) (otps s) = Some (i, d)
            \<and> isValid d (now e) \<and> now e - createdAt d < 30 * 1000)"
  shows "otps (fst (resendOTP req e s)) =
           updateMany (clientId req) (otps s) @ [new_Otp (clientId req) (generated e) ph (now e)]"
    and "clients (fst (resendOTP req e s)) = clients s"
    and "snd (resendOTP req e s) =
           (if req_user req \<noteq> None \<and> c_name c = [] then ServerError
            else OtpGenerated (c_id c) (c_name c) ph (now e + otp_ttl) (generated e))"
    and "notifications (fst (resendOTP req e s)) =
           (case req_user req of
              None \<Rightarrow> notifications s
            | Some u \<Rightarrow>
               if c_name c = [] then notifications s
               else notifications s @
                 [\<lparr>n_type = otp_resent, salesman = u_id u, n_client = c_id c,
                   clientName = c_name c, clientPhone = ph,
                   salesmanName = firstName u @ '' '' @ lastName u,
                   message = ''OTP resent to '' @ c_name c @ '' ('' @ ph @ '')'',
                   status = ''success'', otpId = length (otps s),
                   deliveryMethod = ''Testing Mode (No WhatsApp)'', isRead = False\<rparr>])"
proof -
  consider (none) "findOne_latest (\<lambda>d. client d = clientId req \<and> \<not> isUsed d) (otps s) = None"
    | (some) i d where
        "findOne_latest (\<lambda>d. client d = clientId req \<and> \<not> isUsed d) (otps s) = Some (i, d)"
        "\<not> (isValid d (now e) \<and> now e - createdAt d < 30 * 1000)"
    using assms(5)
    by (cases "findOne_latest (\<lambda>d. client d = clientId req \<and> \<not> isUsed d) (otps s)") auto
  then have "otps (fst (resendOTP req e s)) =
           updateMany (clientId req) (otps s) @ [new_Otp (clientId req) (generated e) ph (now e)]
    \<and> clients (fst (resendOTP req e s)) = clients s
    \<and> snd (resendOTP req e s) =
           (if req_user req \<noteq> None \<and> c_name c = [] then ServerError
            else OtpGenerated (c_id c) (c_name c) ph (now e + otp_ttl) (generated e))
    \<and> notifications (fst (resendOTP req e s)) =
           (case req_user req of
              None \<Rightarrow> notifications s
            | Some u \<Rightarrow>
               if c_name c = [] then notifications s
               else notifications s @
                 [\<lparr>n_type = otp_resent, salesman = u_id u, n_client = c_id c,
                   clientName = c_name c, clientPhone = ph,
                   salesmanName = firstName u @ '' '' @ lastName u,
                   message = ''OTP resent to '' @ c_name c @ '' ('' @ ph @ '')'',
                   status = ''success'', otpId = length (otps s),
                   deliveryMethod = ''Testing Mode (No WhatsApp)'', isRead = False\<rparr>])"
  proof cases
    case none
    with assms(1-4) show ?thesis
      by (simp add: resendOTP_def Let_def new_Otp_def validate_notification_def updateMany_def
          split: option.splits)
  next
    case some
    with assms(1-4) show ?thesis
      by (simp add: resendOTP_def Let_def new_Otp_def validate_notification_def updateMany_def
          split: option.splits)
  qed
  then show "otps (fst (resendOTP req e s)) =
           updateMany (clientId req) (otps s) @ [new_Otp (clientId req) (generated e) ph (now e)]"
    and "clients (fst (resendOTP req e s)) = clients s"
    and "snd (resendOTP req e s) =
           (if req_user req \<noteq> None \<and> c_name c = [] then ServerError
            else OtpGenerated (c_id c) (c_name c) ph (now e + otp_ttl) (generated e))"
    and "notifications (fst (resendOTP req e s)) =
           (case req_user req of
              None \<Rightarrow> notifications s
            | Some u \<Rightarrow>
               if c_name c = [] then notifications s
               else notifications s @
                 [\<lparr>n_type = otp_resent, salesman = u_id u, n_client = c_id c,
                   clientName = c_name c, clientPhone = ph,
                   salesmanName = firstName u @ '' '' @ lastName u,
                   message = ''OTP resent to '' @ c_name c @ '' ('' @ ph @ '')'',
                   status = ''success'', otpId = length (otps s),
                   deliveryMethod = ''Testing Mode (No WhatsApp)'', isRead = False\<rparr>])"
    by blast+
qed

lemma sendOTP_reject:
  assumes "validationErrors req \<noteq> [] \<or> findById (clientId req) s = None
         \<or> (\<exists>c. findById (clientId req) s = Some c \<and> (c_phone c = None \<or> c_phone c = Some []))"
  shows "fst (sendOTP req e s) = s"
    and "snd (sendOTP req e s) \<in> {ValidationFailed (validationErrors req), ClientNotFound, NoPhoneNumber}"
  using assms by (auto simp: sendOTP_def)

lemma resendOTP_reject:
  assumes "validationErrors req \<noteq> [] \<or> findById (clientId req) s = None
         \<or> (\<exists>c. findById (clientId req) s = Some c \<and> (c_phone c = None \<or> c_phone c = Some []))"
  shows "fst (resendOTP req e s) = s"
    and "snd (resendOTP req e s) \<in> {ValidationFailed (validationErrors req), ClientNotFound, NoPhoneNumber}"
  using assms by (auto simp: resendOTP_def)

lemma issue_path_cases:
  obtains (reject) "validationErrors req \<noteq> [] \<or> findById (clientId req) s = None
         \<or> (\<exists>c. findById (clientId req) s = Some c \<and> (c_phone c = None \<or> c_phone c = Some []))"
  | (issue) c ph where "validationErrors req = []" "findById (clientId req) s = Some c"
      "c_phone c = Some ph" "ph \<noteq> []"
  by (cases "findById (clientId req) s"; cases "c_phone (the (findById (clientId req) s))") auto

lemma sendOTP_success:
  assumes "sendOTP req e s = (s', OtpGenerated a b c d f)"
  shows "\<exists>cl. validationErrors req = [] \<and> findById (clientId req) s = Some cl
           \<and> c_phone cl = Some c \<and> c \<noteq> [] \<and> \<not> (req_user req \<noteq> None \<and> c_name cl = [])
           \<and> a = c_id cl \<and> b = c_name cl \<and> d = now e + otp_ttl \<and> f = generated e"
proof (cases rule: issue_path_cases[of req s])
  case reject
  from sendOTP_reject(2)[OF reject, of e] assms show ?thesis by simp
next
  case (issue cl ph)
  from sendOTP_issue(3)[OF issue, of e] assms issue show ?thesis
    by (simp split: if_splits)
qed

lemma resendOTP_success:
  assumes "resendOTP req e s = (s', OtpGenerated a b c d f)"
  shows "\<exists>cl. validationErrors req = [] \<and> findById (clientId req) s = Some cl
           \<and> c_phone cl = Some c \<and> c \<noteq> [] \<and> \<not> (req_user req \<noteq> None \<and> c_name cl = [])
           \<and> a = c_id cl \<and> b = c_name cl \<and> d = now e + otp_ttl \<and> f = generated e
           \<and> \<not> (\<exists>i d. findOne_latest (\<lambda>d. client d = clientId req \<and> \<not> isUsed d) (otps s)
                         = Some (i, d)
                       \<and> isValid d (now e) \<and> now e - createdAt d < 30 * 1000)"
proof (cases rule: issue_path_cases[of req s])
  case reject
  from resendOTP_reject(2)[OF reject, of e] assms show ?thesis by simp
next
  case (issue cl ph)
  show ?thesis
  proof (cases "\<exists>i d. findOne_latest (\<lambda>d. client d = clientId req \<and> \<not> isUsed d) (otps s)
                         = Some (i, d)
                       \<and> isValid d (now e) \<and> now e - createdAt d < 30 * 1000")
    case True
    then obtain i r where
      "findOne_latest (\<lambda>d. client d = clientId req \<and> \<not> isUsed d) (otps s) = Some (i, r)"
      "isValid r (now e)" "now e - createdAt r < 30 * 1000" by blast
    from resendOTP_throttled[OF issue this] assms show ?thesis by simp
  next
    case False
    from resendOTP_issue(3)[OF issue False] assms issue False show ?thesis
      by (simp split: if_splits)
  qed
qed

lemma resendOTP_reject_eq:
  assumes "validationErrors req \<noteq> [] \<or> findById (clientId req) s = None
         \<or> (\<exists>c. findById (clientId req) s = Some c \<and> (c_phone c = None \<or> c_phone c = Some []))"
  shows "snd (resendOTP req e s) = snd (sendOTP req e s)"
  using assms by (auto simp: resendOTP_def sendOTP_def)

section \<open>What a request can change\<close>

lemma verifyOTP_success:
  assumes "verifyOTP req e s = (s1, OtpVerified a b c d)"
  shows "validationErrors req = []
    \<and> (\<exists>i r. findOne_latest
                 (\<lambda>d. client d = clientId req \<and> otp d = castString (otp_body req) \<and> \<not> isUsed d)
                 (otps s) = Some (i, r)
            \<and> isValid r (now e) \<and> otp_body req = JString (otp r)
            \<and> s1 = s\<lparr>otps := (otps s)[i := r\<lparr>attempts := attempts r + 1, isUsed := True\<rparr>]\<rparr>)"
proof -
  have v: "validationErrors req = []"
    using assms by (cases "validationErrors req = []") (simp_all add: verifyOTP_def)
  obtain i r where f: "findOne_latest
                 (\<lambda>d. client d = clientId req \<and> otp d = castString (otp_body req) \<and> \<not> isUsed d)
                 (otps s) = Some (i, r)"
    using assms v
    by (cases "findOne_latest
                 (\<lambda>d. client d = clientId req \<and> otp d = castString (otp_body req) \<and> \<not> isUsed d)
                 (otps s)") (auto simp: verifyOTP_def)
  have valid: "isValid r (now e)"
    using assms v f by (cases "isValid r (now e)") (simp_all add: verifyOTP_def)
  have same: "\<not> strict_neq (otp r) (otp_body req)"
    using assms v f valid
    by (cases "strict_neq (otp r) (otp_body req)") (simp_all add: verifyOTP_def Let_def)
  then have body: "otp_body req = JString (otp r)"
    by (cases "otp_body req") simp_all
  have "fst (verifyOTP req e s)
      = s\<lparr>otps := (otps s)[i := r\<lparr>attempts := attempts r + 1, isUsed := True\<rparr>]\<rparr>"
    using v f valid same by (simp add: verifyOTP_def Let_def split: option.splits)
  with assms v f valid body show ?thesis by simp
qed

lemma verifyOTP_shape:
  "clients (fst (verifyOTP req e s)) = clients s
   \<and> (otps (fst (verifyOTP req e s)) = otps s
      \<or> (\<exists>i k u. i < length (otps s) \<and> (isUsed (otps s ! i) \<longrightarrow> u)
            \<and> otps (fst (verifyOTP req e s))
              = (otps s)[i := (otps s ! i)\<lparr>attempts := k, isUsed := u\<rparr>]))"
proof (cases "validationErrors req = []")
  case False
  then show ?thesis by (simp add: verifyOTP_def)
next
  case v: True
  show ?thesis
  proof (cases "findOne_latest
                 (\<lambda>d. client d = clientId req \<and> otp d = castString (otp_body req) \<and> \<not> isUsed d)
                 (otps s)")
    case None
    with v show ?thesis by (simp add: verifyOTP_def)
  next
    case (Some x)
    obtain i r where x: "x = (i, r)" by (cases x)
    from findOne_latest_Some[OF Some[unfolded x]]
    have r: "i < length (otps s)" "otps s ! i = r" by simp_all
    have c: "clients (fst (verifyOTP req e s)) = clients s"
      using v Some x by (simp add: verifyOTP_def Let_def split: option.splits)
    have "\<exists>k u. (isUsed r \<longrightarrow> u)
            \<and> otps (fst (verifyOTP req e s)) = (otps s)[i := r\<lparr>attempts := k, isUsed := u\<rparr>]"
    proof (cases "isValid r (now e)")
      case False
      have "otps (fst (verifyOTP req e s)) = (otps s)[i := r\<lparr>attempts := attempts r, isUsed := True\<rparr>]"
        using v Some x False by (simp add: verifyOTP_def)
      then show ?thesis by blast
    next
      case True
      show ?thesis
      proof (cases "strict_neq (otp r) (otp_body req)")
        case wrong: True
        have "otps (fst (verifyOTP req e s))
            = (otps s)[i := r\<lparr>attempts := attempts r + 1, isUsed := isUsed r\<rparr>]"
          using v Some x True wrong by (simp add: verifyOTP_def Let_def)
        then show ?thesis by blast
      next
        case right: False
        have "otps (fst (verifyOTP req e s))
            = (otps s)[i := r\<lparr>attempts := attempts r + 1, isUsed := True\<rparr>]"
          using v Some x True right by (simp add: verifyOTP_def Let_def split: option.splits)
        then show ?thesis by blast
      qed
    qed
    with r c show ?thesis by blast
  qed
qed

lemma issue_shape:
  "clients (fst (sendOTP req e s)) = clients s
   \<and> (otps (fst (sendOTP req e s)) = otps s
      \<or> (\<exists>ph. findById (clientId req) s \<noteq> None
            \<and> otps (fst (sendOTP req e s))
              = updateMany (clientId req) (otps s) @ [new_Otp (clientId req) (generated e) ph (now e)]))"
  "clients (fst (resendOTP req e s)) = clients s
   \<and> (otps (fst (resendOTP req e s)) = otps s
      \<or> (\<exists>ph. findById (clientId req) s \<noteq> None
            \<and> otps (fst (resendOTP req e s))
              = updateMany (clientId req) (otps s) @ [new_Otp (clientId req) (generated e) ph (now e)]))"
proof -
  show "clients (fst (sendOTP req e s)) = clients s
   \<and> (otps (fst (sendOTP req e s)) = otps s
      \<or> (\<exists>ph. findById (clientId req) s \<noteq> None
            \<and> otps (fst (sendOTP req e s))
              = updateMany (clientId req) (otps s) @ [new_Otp (clientId req) (generated e) ph (now e)]))"
  proof (cases rule: issue_path_cases[of req s])
    case reject
    from sendOTP_reject(1)[OF reject, of e] show ?thesis by simp
  next
    case (issue c ph)
    from sendOTP_issue(1,2)[OF issue, of e] issue(2) show ?thesis by auto
  qed
  show "clients (fst (resendOTP req e s)) = clients s
   \<and> (otps (fst (resendOTP req e s)) = otps s
      \<or> (\<exists>ph. findById (clientId req) s \<noteq> None
            \<and> otps (fst (resendOTP req e s))
              = updateMany (clientId req) (otps s) @ [new_Otp (clientId req) (generated e) ph (now e)]))"
  proof (cases rule: issue_path_cases[of req s])
    case reject
    from resendOTP_reject(1)[OF reject, of e] show ?thesis by simp
  next
    case (issue c ph)
    show ?thesis
    proof (cases "\<exists>i d. findOne_latest (\<lambda>d. client d = clientId req \<and> \<not> isUsed d) (otps s)
                         = Some (i, d)
                       \<and> isValid d (now e) \<and> now e - createdAt d < 30 * 1000")
      case True
      then obtain i r where
        "findOne_latest (\<lambda>d. client d = clientId req \<and> \<not> isUsed d) (otps s) = Some (i, r)"
        "isValid r (now e)" "now e - createdAt r < 30 * 1000" by blast
      from resendOTP_throttled[OF issue this] show ?thesis by simp
    next
      case False
      from resendOTP_issue(1,2)[OF issue False] issue(2) show ?thesis by auto
    qed
  qed
qed

lemma step_shape:
  "clients (fst (step x s)) = clients s
   \<and> (otps (fst (step x s)) = otps s
      \<or> (\<exists>cid code ph t. issues cid code x \<and> findById cid s \<noteq> None
            \<and> otps (fst (step x s)) = updateMany cid (otps s) @ [new_Otp cid code ph t])
      \<or> (\<exists>i k u. i < length (otps s) \<and> (isUsed (otps s ! i) \<longrightarrow> u)
            \<and> otps (fst (step x s)) = (otps s)[i := (otps s ! i)\<lparr>attempts := k, isUsed := u\<rparr>]))"
proof (cases x)
  case (SendOTP req e)
  with issue_shape(1)[of req e s] show ?thesis by auto
next
  case (VerifyOTP req e)
  with verifyOTP_shape[of req e s] show ?thesis by auto
next
  case (ResendOTP req e)
  with issue_shape(2)[of req e s] show ?thesis by auto
next
  case (GetOTPStatus req e)
  then show ?thesis by (simp add: getOTPStatus_def split: option.splits)
qed

lemma updateMany_nth:
  "i < length ds \<Longrightarrow> client (updateMany cid ds ! i) = client (ds ! i)
     \<and> otp (updateMany cid ds ! i) = otp (ds ! i)
     \<and> (isUsed (ds ! i) \<longrightarrow> isUsed (updateMany cid ds ! i))"
  by (simp add: updateMany_def)

lemma updateMany_length [simp]: "length (updateMany cid ds) = length ds"
  by (simp add: updateMany_def)

lemma step_isUsed:
  assumes "i < length (otps s)" "isUsed (otps s ! i)"
  shows "i < length (otps (fst (step x s))) \<and> isUsed (otps (fst (step x s)) ! i)"
  using step_shape[of x s]
proof (elim conjE disjE exE)
  assume "otps (fst (step x s)) = otps s"
  with assms show ?thesis by simp
next
  fix cid code ph t
  assume "otps (fst (step x s)) = updateMany cid (otps s) @ [new_Otp cid code ph t]"
  with assms updateMany_nth[of i "otps s" cid] show ?thesis by (simp add: nth_append)
next
  fix j k u
  assume "j < length (otps s)" "isUsed (otps s ! j) \<longrightarrow> u"
    "otps (fst (step x s)) = (otps s)[j := (otps s ! j)\<lparr>attempts := k, isUsed := u\<rparr>]"
  with assms show ?thesis by (cases "i = j") simp_all
qed

lemma run_isUsed:
  "i < length (otps s) \<Longrightarrow> isUsed (otps s ! i)
   \<Longrightarrow> i < length (otps (run xs s)) \<and> isUsed (otps (run xs s) ! i)"
proof (induction xs arbitrary: s)
  case Nil
  then show ?case by simp
next
  case (Cons x xs)
  from step_isUsed[OF Cons.prems, of x] Cons.IH[of "fst (step x s)"] show ?case by simp
qed

lemma set_updateMany:
  "d \<in> set (updateMany cid ds) \<Longrightarrow> \<exists>d0\<in>set ds. client d = client d0 \<and> otp d = otp d0
      \<and> (isUsed d0 \<longrightarrow> isUsed d)"
proof -
  assume "d \<in> set (updateMany cid ds)"
  then obtain j where j: "j < length ds" "d = updateMany cid ds ! j"
    by (auto simp: in_set_conv_nth)
  from updateMany_nth[OF j(1), of cid] j show ?thesis by (intro bexI[of _ "ds ! j"]) simp_all
qed

lemma step_no_unused:
  assumes "\<not> issues cid code x"
    and "\<forall>d\<in>set (otps s). client d = cid \<and> otp d = code \<longrightarrow> isUsed d"
  shows "\<forall>d\<in>set (otps (fst (step x s))). client d = cid \<and> otp d = code \<longrightarrow> isUsed d"
  using step_shape[of x s]
proof (elim conjE disjE exE)
  assume "otps (fst (step x s)) = otps s"
  with assms show ?thesis by simp
next
  fix cid' code' ph t
  assume i: "issues cid' code' x"
    and o: "otps (fst (step x s)) = updateMany cid' (otps s) @ [new_Otp cid' code' ph t]"
  from i assms(1) have ne: "\<not> (cid' = cid \<and> code' = code)" by auto
  show ?thesis
  proof
    fix d assume "d \<in> set (otps (fst (step x s)))"
    then consider "d \<in> set (updateMany cid' (otps s))" | "d = new_Otp cid' code' ph t"
      unfolding o by auto
    then show "client d = cid \<and> otp d = code \<longrightarrow> isUsed d"
    proof cases
      case 1
      from set_updateMany[OF 1] assms(2) show ?thesis by metis
    next
      case 2
      with ne show ?thesis by (auto simp: new_Otp_def)
    qed
  qed
next
  fix j k u
  assume j: "j < length (otps s)" "isUsed (otps s ! j) \<longrightarrow> u"
    and o: "otps (fst (step x s)) = (otps s)[j := (otps s ! j)\<lparr>attempts := k, isUsed := u\<rparr>]"
  from j(1) have mem: "otps s ! j \<in> set (otps s)" by simp
  show ?thesis
  proof
    fix d assume "d \<in> set (otps (fst (step x s)))"
    then have "d = (otps s ! j)\<lparr>attempts := k, isUsed := u\<rparr> \<or> d \<in> set (otps s)"
      unfolding o using set_update_subset_insert by fastforce
    with assms(2) j(2) mem show "client d = cid \<and> otp d = code \<longrightarrow> isUsed d" by auto
  qed
qed

lemma run_no_unused:
  "\<forall>x\<in>set xs. \<not> issues cid code x
   \<Longrightarrow> \<forall>d\<in>set (otps s). client d = cid \<and> otp d = code \<longrightarrow> isUsed d
   \<Longrightarrow> \<forall>d\<in>set (otps (run xs s)). client d = cid \<and> otp d = code \<longrightarrow> isUsed d"
proof (induction xs arbitrary: s)
  case Nil
  then show ?case by simp
next
  case (Cons x xs)
  from Cons.prems have "\<not> issues cid code x" by simp
  from step_no_unused[OF this Cons.prems(2)] Cons.prems(1) Cons.IH[of "fst (step x s)"]
  show ?case by simp
qed

lemma filter_update_le:
  "i < length xs \<Longrightarrow> (P y \<longrightarrow> P (xs ! i))
   \<Longrightarrow> length (filter P (xs[i := y])) \<le> length (filter P xs)"
proof (induction xs arbitrary: i)
  case Nil
  then show ?case by simp
next
  case (Cons x xs)
  then show ?case by (cases i) (auto intro: le_SucI)
qed

lemma filter_unique_update:
  "length (filter P xs) \<le> 1 \<Longrightarrow> i < length xs \<Longrightarrow> P (xs ! i) \<Longrightarrow> \<not> P y
   \<Longrightarrow> filter P (xs[i := y]) = []"
proof (induction xs arbitrary: i)
  case Nil
  then show ?case by simp
next
  case (Cons x xs)
  show ?case
  proof (cases i)
    case 0
    with Cons.prems show ?thesis by simp
  next
    case (Suc j)
    with Cons.prems have j: "j < length xs" "P (xs ! j)" by simp_all
    then have "xs ! j \<in> set (filter P xs)" by simp
    then have "filter P xs \<noteq> []" by force
    with Cons.prems(1) have "\<not> P x" by (cases "filter P xs") (auto split: if_splits)
    with Cons.prems Suc j Cons.IH[of j] show ?thesis by simp
  qed
qed

lemma step_single_active:
  assumes "length (active c (otps s)) \<le> 1"
  shows "length (active c (otps (fst (step x s)))) \<le> 1"
  using step_shape[of x s]
proof (elim conjE disjE exE)
  assume "otps (fst (step x s)) = otps s"
  with assms show ?thesis by simp
next
  fix cid code ph t
  assume o: "otps (fst (step x s)) = updateMany cid (otps s) @ [new_Otp cid code ph t]"
  have split: "active c (otps (fst (step x s)))
        = active c (updateMany cid (otps s)) @ active c [new_Otp cid code ph t]"
    unfolding o active_def by simp
  show ?thesis
  proof (cases "c = cid")
    case True
    then show ?thesis unfolding split by (simp add: active_updateMany_same) (simp add: active_def)
  next
    case False
    then have "active c [new_Otp cid code ph t] = []" by (simp add: active_def new_Otp_def)
    with False assms show ?thesis unfolding split by (simp add: active_updateMany_other)
  qed
next
  fix j k u
  assume j: "j < length (otps s)" "isUsed (otps s ! j) \<longrightarrow> u"
    and o: "otps (fst (step x s)) = (otps s)[j := (otps s ! j)\<lparr>attempts := k, isUsed := u\<rparr>]"
  have "length (active c (otps (fst (step x s)))) \<le> length (active c (otps s))"
    unfolding o active_def using j by (intro filter_update_le) auto
  with assms show ?thesis by simp
qed

lemma run_single_active:
  "length (active c (otps s)) \<le> 1 \<Longrightarrow> length (active c (otps (run xs s))) \<le> 1"
proof (induction xs arbitrary: s)
  case Nil
  then show ?case by simp
next
  case (Cons x xs)
  from step_single_active[OF Cons.prems, of x] Cons.IH[of "fst (step x s)"] show ?case by simp
qed

lemma step_clients_on_file:
  assumes "clients_on_file s"
  shows "clients_on_file (fst (step x s))"
proof -
  have c: "clients (fst (step x s)) = clients s" using step_shape[of x s] by simp
  have f: "\<And>cid. findById cid (fst (step x s)) = findById cid s"
    by (simp add: findById_def c)
  from assms have a: "\<forall>d\<in>set (otps s). findById (client d) s \<noteq> None"
    by (simp add: clients_on_file_def list_all_iff)
  have "\<forall>d\<in>set (otps (fst (step x s))). findById (client d) s \<noteq> None"
    using step_shape[of x s]
  proof (elim conjE disjE exE)
    assume "otps (fst (step x s)) = otps s"
    with a show ?thesis by simp
  next
    fix cid code ph t
    assume i: "findById cid s \<noteq> None"
      and o: "otps (fst (step x s)) = updateMany cid (otps s) @ [new_Otp cid code ph t]"
    show ?thesis
    proof
      fix d assume "d \<in> set (otps (fst (step x s)))"
      then consider "d \<in> set (updateMany cid (otps s))" | "d = new_Otp cid code ph t"
        unfolding o by auto
      then show "findById (client d) s \<noteq> None"
      proof cases
        case 1
        from set_updateMany[OF 1] a show ?thesis by metis
      next
        case 2
        with i show ?thesis by (simp add: new_Otp_def)
      qed
    qed
  next
    fix j k u
    assume j: "j < length (otps s)"
      and o: "otps (fst (step x s)) = (otps s)[j := (otps s ! j)\<lparr>attempts := k, isUsed := u\<rparr>]"
    show ?thesis
    proof
      fix d assume "d \<in> set (otps (fst (step x s)))"
      then have "d = (otps s ! j)\<lparr>attempts := k, isUsed := u\<rparr> \<or> d \<in> set (otps s)"
        unfolding o using set_update_subset_insert by fastforce
      with a j show "findById (client d) s \<noteq> None" by auto
    qed
  qed
  then show ?thesis by (simp add: clients_on_file_def list_all_iff f)
qed

lemma run_clients_on_file:
  "clients_on_file s \<Longrightarrow> clients_on_file (run xs s)"
proof (induction xs arbitrary: s)
  case Nil
  then show ?case by simp
next
  case (Cons x xs)
  from step_clients_on_file[OF Cons.prems, of x] Cons.IH[of "fst (step x s)"] show ?case by simp
qed

lemma clients_on_file_initial: "otps s = [] \<Longrightarrow> clients_on_file s"
  by (simp add: clients_on_file_def)


lemma set_updateMany_origin:
  assumes "d \<in> set (updateMany cid ds)"
  shows "\<exists>d0\<in>set ds. client d = client d0 \<and> createdAt d = createdAt d0
      \<and> (isUsed d0 \<longrightarrow> isUsed d) \<and> (client d0 = cid \<longrightarrow> isUsed d)"
proof -
  from assms obtain j where j: "j < length ds" "d = updateMany cid ds ! j"
    by (auto simp: in_set_conv_nth)
  have "client (updateMany cid ds ! j) = client (ds ! j)
      \<and> createdAt (updateMany cid ds ! j) = createdAt (ds ! j)
      \<and> (isUsed (ds ! j) \<longrightarrow> isUsed (updateMany cid ds ! j))
      \<and> (client (ds ! j) = cid \<longrightarrow> isUsed (updateMany cid ds ! j))"
    using j(1) by (simp add: updateMany_def)
  with j show ?thesis by (intro bexI[of _ "ds ! j"]) simp_all
qed

lemma issue_newest_unused:
  assumes J: "newest_unused c ds" and T: "\<forall>d\<in>set ds. createdAt d \<le> t"
  shows "newest_unused c (updateMany cid ds @ [new_Otp cid code ph t])"
    and "\<forall>d\<in>set (updateMany cid ds @ [new_Otp cid code ph t]). createdAt d \<le> t"
proof -
  let ?new = "new_Otp cid code ph t"
  have new: "client ?new = cid" "createdAt ?new = t" by (simp_all add: new_Otp_def)
  show bound: "\<forall>d\<in>set (updateMany cid ds @ [?new]). createdAt d \<le> t"
  proof
    fix d assume "d \<in> set (updateMany cid ds @ [?new])"
    then consider "d \<in> set (updateMany cid ds)" | "d = ?new" by auto
    then show "createdAt d \<le> t"
    proof cases
      case 1
      from set_updateMany_origin[OF 1] T show ?thesis by auto
    next
      case 2
      with new show ?thesis by simp
    qed
  qed
  show "newest_unused c (updateMany cid ds @ [?new])"
    unfolding newest_unused_def
  proof (intro ballI impI)
    fix d d'
    assume d: "d \<in> set (updateMany cid ds @ [?new])" "client d = c \<and> \<not> isUsed d"
      and d': "d' \<in> set (updateMany cid ds @ [?new])" "client d' = c"
    from d(1) consider "d \<in> set (updateMany cid ds)" | "d = ?new" by auto
    then show "createdAt d' \<le> createdAt d"
    proof cases
      case 2
      from bound d'(1) have "createdAt d' \<le> t" by blast
      with 2 new show ?thesis by simp
    next
      case 1
      from set_updateMany_origin[OF 1] d(2) obtain d0 where
        d0: "d0 \<in> set ds" "client d0 = c" "createdAt d = createdAt d0" "\<not> isUsed d0" "c \<noteq> cid"
        by auto
      from d'(1) consider "d' \<in> set (updateMany cid ds)" | "d' = ?new" by auto
      then show ?thesis
      proof cases
        case 2
        with new d'(2) d0(5) show ?thesis by simp
      next
        case 1
        from set_updateMany_origin[OF 1] d'(2) obtain d1 where
          "d1 \<in> set ds" "client d1 = c" "createdAt d' = createdAt d1" by auto
        with J d0 show ?thesis unfolding newest_unused_def by auto
      qed
    qed
  qed
qed

lemma update_newest_unused:
  assumes J: "newest_unused c ds" and j: "j < length ds" "isUsed (ds ! j) \<longrightarrow> u"
  shows "newest_unused c (ds[j := (ds ! j)\<lparr>attempts := k, isUsed := u\<rparr>])"
    and "(\<forall>d\<in>set ds. createdAt d \<le> t)
      \<longrightarrow> (\<forall>d\<in>set (ds[j := (ds ! j)\<lparr>attempts := k, isUsed := u\<rparr>]). createdAt d \<le> t)"
proof -
  let ?y = "(ds ! j)\<lparr>attempts := k, isUsed := u\<rparr>"
  have origin: "\<exists>d0\<in>set ds. client d = client d0 \<and> createdAt d = createdAt d0
      \<and> (isUsed d0 \<longrightarrow> isUsed d)" if "d \<in> set (ds[j := ?y])" for d
  proof -
    from that have "d = ?y \<or> d \<in> set ds"
      using set_update_subset_insert by fastforce
    then show ?thesis
    proof
      assume "d = ?y"
      with j show ?thesis by (intro bexI[of _ "ds ! j"]) simp_all
    next
      assume "d \<in> set ds"
      then show ?thesis by blast
    qed
  qed
  show "newest_unused c (ds[j := ?y])"
    unfolding newest_unused_def
  proof (intro ballI impI)
    fix d d'
    assume d: "d \<in> set (ds[j := ?y])" "client d = c \<and> \<not> isUsed d"
      and d': "d' \<in> set (ds[j := ?y])" "client d' = c"
    from origin[OF d(1)] d(2) obtain d0 where
      d0: "d0 \<in> set ds" "client d0 = c" "createdAt d = createdAt d0" "\<not> isUsed d0" by auto
    from origin[OF d'(1)] d'(2) obtain d1 where
      "d1 \<in> set ds" "client d1 = c" "createdAt d' = createdAt d1" by auto
    with J d0 show "createdAt d' \<le> createdAt d" unfolding newest_unused_def by auto
  qed
  show "(\<forall>d\<in>set ds. createdAt d \<le> t) \<longrightarrow> (\<forall>d\<in>set (ds[j := ?y]). createdAt d \<le> t)"
    using origin by fastforce
qed

lemma step_newest_unused:
  assumes J: "newest_unused c (otps s)" and T: "\<forall>d\<in>set (otps s). createdAt d \<le> clock_of x"
  shows "newest_unused c (otps (fst (step x s)))
    \<and> (\<forall>d\<in>set (otps (fst (step x s))). createdAt d \<le> clock_of x)"
proof (cases x)
  case (SendOTP req e)
  with issue_shape(1)[of req e s] issue_newest_unused[OF J, of "now e" "clientId req" "generated e"]
    J T show ?thesis by auto
next
  case (ResendOTP req e)
  with issue_shape(2)[of req e s] issue_newest_unused[OF J, of "now e" "clientId req" "generated e"]
    J T show ?thesis by auto
next
  case (VerifyOTP req e)
  from verifyOTP_shape[of req e s]
  consider "otps (fst (verifyOTP req e s)) = otps s"
    | i k u where "i < length (otps s)" "isUsed (otps s ! i) \<longrightarrow> u"
        "otps (fst (verifyOTP req e s)) = (otps s)[i := (otps s ! i)\<lparr>attempts := k, isUsed := u\<rparr>]"
    by blast
  then show ?thesis
  proof cases
    case 1
    with VerifyOTP J T show ?thesis by simp
  next
    case 2
    from update_newest_unused(1)[OF J 2(1,2), of k]
      update_newest_unused(2)[OF J 2(1,2), of "clock_of x" k] T 2(3) VerifyOTP
    show ?thesis by simp
  qed
next
  case (GetOTPStatus req e)
  with J T show ?thesis by (simp add: getOTPStatus_def split: option.splits)
qed

lemma run_newest_unused:
  "newest_unused c (otps s) \<Longrightarrow> \<forall>d\<in>set (otps s). createdAt d \<le> t \<Longrightarrow> monotone_from t xs
   \<Longrightarrow> newest_unused c (otps (run xs s))"
proof (induction xs arbitrary: s t)
  case Nil
  then show ?case by simp
next
  case (Cons x xs)
  from Cons.prems(3) have le: "t \<le> clock_of x" and rest: "monotone_from (clock_of x) xs"
    by simp_all
  from Cons.prems(2) le have "\<forall>d\<in>set (otps s). createdAt d \<le> clock_of x" by fastforce
  from step_newest_unused[OF Cons.prems(1) this]
  have "newest_unused c (otps (fst (step x s)))"
    "\<forall>d\<in>set (otps (fst (step x s))). createdAt d \<le> clock_of x" by simp_all
  from Cons.IH[OF this rest] show ?case by simp
qed

lemma newest_unused_initial: "newest_unused c []"
  by (simp add: newest_unused_def)

section \<open>Issue and resend\<close>

text \<open>
  Claim C1. \<open>sendOTP\<close>, for a valid request of a client with a phone number, marks every
  unused record of the client as used and then stores the new record; \<open>resendOTP\<close> does
  the same whenever no record of the client is both valid and younger than 30 seconds.
  Whenever either of them answers with a new code, the OTP collection is the old one with
  every unused record of the client marked used, followed by the new record: the new
  record is the only unused record of that client (at most one exists), and the unused
  records of every other client are as before.
\<close>

theorem issue_single_active:
  "((sendOTP req e s = (s', OtpGenerated a b c d f)
       \<or> resendOTP req e s = (s', OtpGenerated a b c d f))
      \<longrightarrow> otps s' = updateMany (clientId req) (otps s)
                       @ [new_Otp (clientId req) (generated e) c (now e)]
        \<and> (\<forall>r\<in>set (updateMany (clientId req) (otps s)). client r = clientId req \<longrightarrow> isUsed r)
        \<and> active (clientId req) (otps s') = [new_Otp (clientId req) (generated e) c (now e)]
        \<and> length (active (clientId req) (otps s')) \<le> 1
        \<and> (\<forall>cid. cid \<noteq> clientId req \<longrightarrow> active cid (otps s') = active cid (otps s)))
   \<and> (validationErrors req = [] \<and> findById (clientId req) s = Some cl
        \<and> c_phone cl = Some ph \<and> ph \<noteq> []
      \<longrightarrow> otps (fst (sendOTP req e s))
            = updateMany (clientId req) (otps s)
              @ [new_Otp (clientId req) (generated e) ph (now e)]
        \<and> active (clientId req) (otps (fst (sendOTP req e s)))
            = [new_Otp (clientId req) (generated e) ph (now e)]
        \<and> (req_user req = None \<or> c_name cl \<noteq> []
            \<longrightarrow> snd (sendOTP req e s)
                = OtpGenerated (c_id cl) (c_name cl) ph (now e + otp_ttl) (generated e)))
   \<and> (validationErrors req = [] \<and> findById (clientId req) s = Some cl
        \<and> c_phone cl = Some ph \<and> ph \<noteq> []
        \<and> \<not> (\<exists>r\<in>set (otps s). client r = clientId req \<and> isValid r (now e)
                  \<and> now e - createdAt r < 30 * 1000)
      \<longrightarrow> otps (fst (resendOTP req e s))
            = updateMany (clientId req) (otps s)
              @ [new_Otp (clientId req) (generated e) ph (now e)]
        \<and> active (clientId req) (otps (fst (resendOTP req e s)))
            = [new_Otp (clientId req) (generated e) ph (now e)]
        \<and> (req_user req = None \<or> c_name cl \<noteq> []
            \<longrightarrow> snd (resendOTP req e s)
                = OtpGenerated (c_id cl) (c_name cl) ph (now e + otp_ttl) (generated e)))"
proof (intro conjI)
  show "(sendOTP req e s = (s', OtpGenerated a b c d f)
       \<or> resendOTP req e s = (s', OtpGenerated a b c d f))
      \<longrightarrow> otps s' = updateMany (clientId req) (otps s)
                       @ [new_Otp (clientId req) (generated e) c (now e)]
        \<and> (\<forall>r\<in>set (updateMany (clientId req) (otps s)). client r = clientId req \<longrightarrow> isUsed r)
        \<and> active (clientId req) (otps s') = [new_Otp (clientId req) (generated e) c (now e)]
        \<and> length (active (clientId req) (otps s')) \<le> 1
        \<and> (\<forall>cid. cid \<noteq> clientId req \<longrightarrow> active cid (otps s') = active cid (otps s))"
  proof
    assume issued: "sendOTP req e s = (s', OtpGenerated a b c d f)
       \<or> resendOTP req e s = (s', OtpGenerated a b c d f)"
    let ?new = "new_Otp (clientId req) (generated e) c (now e)"
    have o: "otps s' = updateMany (clientId req) (otps s) @ [?new]"
      using issued
    proof
      assume a: "sendOTP req e s = (s', OtpGenerated a b c d f)"
      from sendOTP_success[OF a] obtain cl where
        "validationErrors req = []" "findById (clientId req) s = Some cl"
        "c_phone cl = Some c" "c \<noteq> []" by blast
      from sendOTP_issue(1)[OF this, of e] a show ?thesis by simp
    next
      assume a: "resendOTP req e s = (s', OtpGenerated a b c d f)"
      from resendOTP_success[OF a] obtain cl where
        "validationErrors req = []" "findById (clientId req) s = Some cl"
        "c_phone cl = Some c" "c \<noteq> []"
        "\<not> (\<exists>i d. findOne_latest (\<lambda>d. client d = clientId req \<and> \<not> isUsed d) (otps s)
                         = Some (i, d)
                       \<and> isValid d (now e) \<and> now e - createdAt d < 30 * 1000)" by blast
      from resendOTP_issue(1)[OF this] a show ?thesis by simp
    qed
    from o active_after_issue[where cid = "clientId req" and ds = "otps s" and code = "generated e"
        and ph = c and t = "now e"]
      updateMany_used[of "clientId req" "otps s"]
    show "otps s' = updateMany (clientId req) (otps s) @ [?new]
        \<and> (\<forall>r\<in>set (updateMany (clientId req) (otps s)). client r = clientId req \<longrightarrow> isUsed r)
        \<and> active (clientId req) (otps s') = [?new]
        \<and> length (active (clientId req) (otps s')) \<le> 1
        \<and> (\<forall>cid. cid \<noteq> clientId req \<longrightarrow> active cid (otps s') = active cid (otps s))"
      by simp
  qed
next
  show "validationErrors req = [] \<and> findById (clientId req) s = Some cl
        \<and> c_phone cl = Some ph \<and> ph \<noteq> []
      \<longrightarrow> otps (fst (sendOTP req e s))
            = updateMany (clientId req) (otps s)
              @ [new_Otp (clientId req) (generated e) ph (now e)]
        \<and> active (clientId req) (otps (fst (sendOTP req e s)))
            = [new_Otp (clientId req) (generated e) ph (now e)]
        \<and> (req_user req = None \<or> c_name cl \<noteq> []
            \<longrightarrow> snd (sendOTP req e s)
                = OtpGenerated (c_id cl) (c_name cl) ph (now e + otp_ttl) (generated e))"
  proof
    assume "validationErrors req = [] \<and> findById (clientId req) s = Some cl
        \<and> c_phone cl = Some ph \<and> ph \<noteq> []"
    then have h: "validationErrors req = []" "findById (clientId req) s = Some cl"
      "c_phone cl = Some ph" "ph \<noteq> []" by simp_all
    from sendOTP_issue(1,3)[OF h, of e]
      active_after_issue(1)[where cid = "clientId req" and ds = "otps s" and code = "generated e"
        and ph = ph and t = "now e"]
    show "otps (fst (sendOTP req e s))
            = updateMany (clientId req) (otps s)
              @ [new_Otp (clientId req) (generated e) ph (now e)]
        \<and> active (clientId req) (otps (fst (sendOTP req e s)))
            = [new_Otp (clientId req) (generated e) ph (now e)]
        \<and> (req_user req = None \<or> c_name cl \<noteq> []
            \<longrightarrow> snd (sendOTP req e s)
                = OtpGenerated (c_id cl) (c_name cl) ph (now e + otp_ttl) (generated e))"
      by auto
  qed
next
  show "validationErrors req = [] \<and> findById (clientId req) s = Some cl
        \<and> c_phone cl = Some ph \<and> ph \<noteq> []
        \<and> \<not> (\<exists>r\<in>set (otps s). client r = clientId req \<and> isValid r (now e)
                  \<and> now e - createdAt r < 30 * 1000)
      \<longrightarrow> otps (fst (resendOTP req e s))
            = updateMany (clientId req) (otps s)
              @ [new_Otp (clientId req) (generated e) ph (now e)]
        \<and> active (clientId req) (otps (fst (resendOTP req e s)))
            = [new_Otp (clientId req) (generated e) ph (now e)]
        \<and> (req_user req = None \<or> c_name cl \<noteq> []
            \<longrightarrow> snd (resendOTP req e s)
                = OtpGenerated (c_id cl) (c_name cl) ph (now e + otp_ttl) (generated e))"
  proof
    assume a: "validationErrors req = [] \<and> findById (clientId req) s = Some cl
        \<and> c_phone cl = Some ph \<and> ph \<noteq> []
        \<and> \<not> (\<exists>r\<in>set (otps s). client r = clientId req \<and> isValid r (now e)
                  \<and> now e - createdAt r < 30 * 1000)"
    then have h: "validationErrors req = []" "findById (clientId req) s = Some cl"
      "c_phone cl = Some ph" "ph \<noteq> []" by simp_all
    from a have free: "\<not> (\<exists>i d. findOne_latest (\<lambda>d. client d = clientId req \<and> \<not> isUsed d) (otps s)
                         = Some (i, d)
                       \<and> isValid d (now e) \<and> now e - createdAt d < 30 * 1000)"
      by (intro no_young_valid_lookup) simp
    from resendOTP_issue(1,3)[OF h free]
      active_after_issue(1)[where cid = "clientId req" and ds = "otps s" and code = "generated e"
        and ph = ph and t = "now e"]
    show "otps (fst (resendOTP req e s))
            = updateMany (clientId req) (otps s)
              @ [new_Otp (clientId req) (generated e) ph (now e)]
        \<and> active (clientId req) (otps (fst (resendOTP req e s)))
            = [new_Otp (clientId req) (generated e) ph (now e)]
        \<and> (req_user req = None \<or> c_name cl \<noteq> []
            \<longrightarrow> snd (resendOTP req e s)
                = OtpGenerated (c_id cl) (c_name cl) ph (now e + otp_ttl) (generated e))"
      by auto
  qed
qed

theorem issue_single_active_witness:
  "otps (fst (sendOTP (example_request (JString []) None) (example_env 50000 ''654321'')
       (example_db\<lparr>otps := [new_Otp 1 ''123456'' ''9876543210'' 1000]\<rparr>)))
     = [(new_Otp 1 ''123456'' ''9876543210'' 1000)\<lparr>isUsed := True\<rparr>,
        new_Otp 1 ''654321'' ''9876543210'' 50000]
   \<and> snd (sendOTP (example_request (JString []) None) (example_env 50000 ''654321'')
       (example_db\<lparr>otps := [new_Otp 1 ''123456'' ''9876543210'' 1000]\<rparr>))
     = OtpGenerated 1 ''Asha'' ''9876543210'' 350000 ''654321''
   \<and> otps (fst (resendOTP (example_request (JString []) None) (example_env 50000 ''654321'')
       (example_db\<lparr>otps := [new_Otp 1 ''123456'' ''9876543210'' 1000]\<rparr>)))
     = [(new_Otp 1 ''123456'' ''9876543210'' 1000)\<lparr>isUsed := True\<rparr>,
        new_Otp 1 ''654321'' ''9876543210'' 50000]
   \<and> active 1 (otps (fst (resendOTP (example_request (JString []) None)
       (example_env 50000 ''654321'')
       (example_db\<lparr>otps := [new_Otp 1 ''123456'' ''9876543210'' 1000]\<rparr>))))
     = [new_Otp 1 ''654321'' ''9876543210'' 50000]"
proof -
  let ?R = "example_request (JString []) None"
  let ?E = "example_env 50000 ''654321''"
  let ?S = "example_db\<lparr>otps := [new_Otp 1 ''123456'' ''9876543210'' 1000]\<rparr>"
  have h: "validationErrors ?R = [] \<and> findById (clientId ?R) ?S = Some example_client
        \<and> c_phone example_client = Some ''9876543210'' \<and> ''9876543210'' \<noteq> []"
    by (simp add: example_defs findById_def)
  have free: "\<not> (\<exists>r\<in>set (otps ?S). client r = clientId ?R \<and> isValid r (now ?E)
                  \<and> now ?E - createdAt r < 30 * 1000)"
    by (simp add: example_defs new_Otp_def)
  have user: "req_user ?R = None \<or> c_name example_client \<noteq> []"
    by (simp add: example_defs)
  from issue_single_active[of ?R ?E ?S
      "fst (sendOTP ?R ?E ?S)" 1 "''Asha''" "''9876543210''" 350000 "''654321''"
      example_client "''9876543210''"] h free user
  have a: "otps (fst (sendOTP ?R ?E ?S))
            = updateMany (clientId ?R) (otps ?S)
              @ [new_Otp (clientId ?R) (generated ?E) ''9876543210'' (now ?E)]"
    and b: "snd (sendOTP ?R ?E ?S)
            = OtpGenerated (c_id example_client) (c_name example_client) ''9876543210''
                (now ?E + otp_ttl) (generated ?E)"
    and c: "otps (fst (resendOTP ?R ?E ?S))
            = updateMany (clientId ?R) (otps ?S)
              @ [new_Otp (clientId ?R) (generated ?E) ''9876543210'' (now ?E)]"
    by blast+
  show ?thesis
    unfolding a b c
    by (simp add: example_defs updateMany_def new_Otp_def otp_ttl_def active_def)
qed

text \<open>
  Claim C9, as the code has it. The audit event is written inside \<open>if (req.user)\<close>: an
  issue or resend that answers with a new code for a request that carries a user appends
  exactly one audit event, of type \<open>otp_sent\<close> or \<open>otp_resent\<close>, naming that user as the
  salesman, the client, and the position of the new OTP record; a request without a user
  writes no audit event.
\<close>

theorem issue_audit_event:
  "(req_user req = Some u \<and> sendOTP req e s = (s', OtpGenerated a b c d f)
      \<longrightarrow> (\<exists>n. notifications s' = notifications s @ [n] \<and> n_type n = otp_sent
              \<and> salesman n = u_id u \<and> n_client n = clientId req \<and> clientName n = b
              \<and> otpId n = length (otps s) \<and> length (otps s') = Suc (length (otps s))
              \<and> otps s' ! otpId n = new_Otp (clientId req) (generated e) c (now e)))
   \<and> (req_user req = Some u \<and> resendOTP req e s = (s', OtpGenerated a b c d f)
      \<longrightarrow> (\<exists>n. notifications s' = notifications s @ [n] \<and> n_type n = otp_resent
              \<and> salesman n = u_id u \<and> n_client n = clientId req \<and> clientName n = b
              \<and> otpId n = length (otps s) \<and> length (otps s') = Suc (length (otps s))
              \<and> otps s' ! otpId n = new_Otp (clientId req) (generated e) c (now e)))
   \<and> (req_user req = None
      \<longrightarrow> notifications (fst (sendOTP req e s)) = notifications s
        \<and> notifications (fst (resendOTP req e s)) = notifications s)"
proof (intro conjI impI)
  assume a: "req_user req = Some u \<and> sendOTP req e s = (s', OtpGenerated a b c d f)"
  then have s': "fst (sendOTP req e s) = s'" by simp
  from a sendOTP_success[of req e s s' a b c d f] obtain cl where
    cl: "validationErrors req = []" "findById (clientId req) s = Some cl"
      "c_phone cl = Some c" "c \<noteq> []"
    and more: "c_name cl \<noteq> []" "b = c_name cl" by auto
  from sendOTP_issue(1,4)[OF cl, of e] a more findById_Some[OF cl(2)]
  show "\<exists>n. notifications s' = notifications s @ [n] \<and> n_type n = otp_sent
              \<and> salesman n = u_id u \<and> n_client n = clientId req \<and> clientName n = b
              \<and> otpId n = length (otps s) \<and> length (otps s') = Suc (length (otps s))
              \<and> otps s' ! otpId n = new_Otp (clientId req) (generated e) c (now e)"
    unfolding s' by (simp add: updateMany_def nth_append)
next
  assume a: "req_user req = Some u \<and> resendOTP req e s = (s', OtpGenerated a b c d f)"
  then have s': "fst (resendOTP req e s) = s'" by simp
  from a resendOTP_success[of req e s s' a b c d f] obtain cl where
    cl: "validationErrors req = []" "findById (clientId req) s = Some cl"
      "c_phone cl = Some c" "c \<noteq> []"
      "\<not> (\<exists>i d. findOne_latest (\<lambda>d. client d = clientId req \<and> \<not> isUsed d) (otps s)
                         = Some (i, d)
                       \<and> isValid d (now e) \<and> now e - createdAt d < 30 * 1000)"
    and more: "c_name cl \<noteq> []" "b = c_name cl" by auto
  from resendOTP_issue(1,4)[OF cl] a more findById_Some[OF cl(2)]
  show "\<exists>n. notifications s' = notifications s @ [n] \<and> n_type n = otp_resent
              \<and> salesman n = u_id u \<and> n_client n = clientId req \<and> clientName n = b
              \<and> otpId n = length (otps s) \<and> length (otps s') = Suc (length (otps s))
              \<and> otps s' ! otpId n = new_Otp (clientId req) (generated e) c (now e)"
    unfolding s' by (simp add: updateMany_def nth_append)
next
  assume "req_user req = None"
  then show "notifications (fst (sendOTP req e s)) = notifications s"
    by (simp add: sendOTP_def Let_def split: option.splits)
next
  assume "req_user req = None"
  then show "notifications (fst (resendOTP req e s)) = notifications s"
    by (simp add: resendOTP_def Let_def split: option.splits)
qed

theorem issue_audit_event_witness:
  "notifications (fst (sendOTP (example_request (JString []) (Some example_user))
       (example_env 1000 ''123456'') example_db))
   = [\<lparr>n_type = otp_sent, salesman = 7, n_client = 1, clientName = ''Asha'',
        clientPhone = ''9876543210'', salesmanName = ''Ravi Shah'',
        message = ''OTP sent to Asha (9876543210)'', status = ''success'', otpId = 0,
        deliveryMethod = ''Testing Mode (No WhatsApp)'', isRead = False\<rparr>]
   \<and> n_type (hd (notifications (fst (resendOTP (example_request (JString []) (Some example_user))
       (example_env 1000 ''123456'') example_db)))) = otp_resent
   \<and> notifications (fst (resendOTP (example_request (JString []) None)
       (example_env 1000 ''123456'') example_db)) = []"
  using issue_audit_event[of "example_request (JString []) (Some example_user)" example_user
      "example_env 1000 ''123456''" example_db
      "fst (sendOTP (example_request (JString []) (Some example_user))
         (example_env 1000 ''123456'') example_db)"
      1 "''Asha''" "''9876543210''" 301000 "''123456''"]
    issue_audit_event[of "example_request (JString []) (Some example_user)" example_user
      "example_env 1000 ''123456''" example_db
      "fst (resendOTP (example_request (JString []) (Some example_user))
         (example_env 1000 ''123456'') example_db)"
      1 "''Asha''" "''9876543210''" 301000 "''123456''"]
    issue_audit_event[of "example_request (JString []) None" example_user
      "example_env 1000 ''123456''" example_db example_db]
  by (simp add: example_defs sendOTP_def resendOTP_def findById_def updateMany_def new_Otp_def
      otp_ttl_def Let_def validate_notification_def findOne_latest_def)

text \<open>
  The claim as written fails: a request without \<open>req.user\<close> stores a new OTP record and
  gets the success answer, and no audit event is written.
\<close>

theorem issue_without_user_counterexample:
  "sendOTP (example_request (JString []) None) (example_env 1000 ''123456'') example_db
   = (example_db\<lparr>otps := [new_Otp 1 ''123456'' ''9876543210'' 1000]\<rparr>,
      OtpGenerated 1 ''Asha'' ''9876543210'' 301000 ''123456'')
   \<and> notifications (example_db\<lparr>otps := [new_Otp 1 ''123456'' ''9876543210'' 1000]\<rparr>) = []"
  by (simp add: example_defs sendOTP_def findById_def updateMany_def new_Otp_def otp_ttl_def
      Let_def)

text \<open>
  Claim C6. \<open>resendOTP\<close>, for a valid request of a client with a phone number: when the
  client's most recent record (the one created later than every other record of the
  client, or at least later than every other record of the client that is not yet used) is
  valid and was created less than 30 seconds ago (the clock not being behind its
  creation), the answer is the rate-limit message with the waiting time
  \<open>ceil((30000 - elapsed) / 1000)\<close> seconds, which lies between 1 and 30, and nothing is
  stored. In the other cases \<open>resendOTP\<close> does what \<open>sendOTP\<close> does (the same OTP
  collection, the same answer, and the same audit event but for its type and message
  text): when no record of the client is both valid and younger than 30 seconds; when the
  most recent unused record of the client is not both; and when the most recent record of
  the client is not both, in a collection where no record of the client is newer than an
  unused one (\<open>newest_unused\<close>, which holds after any requests on an empty collection
  when the clock never runs backwards: \<open>run_newest_unused\<close>).
\<close>

theorem resendOTP_throttle:
  "(validationErrors req = [] \<and> findById (clientId req) s = Some c \<and> c_phone c = Some ph
      \<and> ph \<noteq> []
      \<and> i < length (otps s) \<and> client (otps s ! i) = clientId req
      \<and> ((\<forall>j<length (otps s). j \<noteq> i \<and> client (otps s ! j) = clientId req
              \<longrightarrow> createdAt (otps s ! j) < createdAt (otps s ! i))
         \<or> (\<forall>j<length (otps s). j \<noteq> i \<and> client (otps s ! j) = clientId req
                \<and> \<not> isUsed (otps s ! j)
              \<longrightarrow> createdAt (otps s ! j) < createdAt (otps s ! i)))
      \<and> isValid (otps s ! i) (now e)
      \<and> 0 \<le> now e - createdAt (otps s ! i) \<and> now e - createdAt (otps s ! i) < 30 * 1000
     \<longrightarrow> resendOTP req e s = (s, PleaseWait \<lceil>(30 * 1000 - real_of_int (now e - createdAt (otps s ! i))) / 1000\<rceil>)
         \<and> 1 \<le> \<lceil>(30 * 1000 - real_of_int (now e - createdAt (otps s ! i))) / 1000\<rceil>
         \<and> \<lceil>(30 * 1000 - real_of_int (now e - createdAt (otps s ! i))) / 1000\<rceil> \<le> 30)
   \<and> ((\<not> (\<exists>r\<in>set (otps s). client r = clientId req \<and> isValid r (now e)
               \<and> now e - createdAt r < 30 * 1000))
      \<or> (k < length (otps s) \<and> client (otps s ! k) = clientId req \<and> \<not> isUsed (otps s ! k)
          \<and> (\<forall>j<length (otps s). j \<noteq> k \<and> client (otps s ! j) = clientId req
                 \<and> \<not> isUsed (otps s ! j)
               \<longrightarrow> createdAt (otps s ! j) < createdAt (otps s ! k))
          \<and> \<not> (isValid (otps s ! k) (now e) \<and> now e - createdAt (otps s ! k) < 30 * 1000))
      \<or> (newest_unused (clientId req) (otps s)
          \<and> k < length (otps s) \<and> client (otps s ! k) = clientId req
          \<and> (\<forall>j<length (otps s). j \<noteq> k \<and> client (otps s ! j) = clientId req
               \<longrightarrow> createdAt (otps s ! j) < createdAt (otps s ! k))
          \<and> \<not> (isValid (otps s ! k) (now e) \<and> now e - createdAt (otps s ! k) < 30 * 1000))
     \<longrightarrow> otps (fst (resendOTP req e s)) = otps (fst (sendOTP req e s))
         \<and> clients (fst (resendOTP req e s)) = clients (fst (sendOTP req e s))
         \<and> snd (resendOTP req e s) = snd (sendOTP req e s)
         \<and> notifications (fst (resendOTP req e s))
           = notifications s @
             map (\<lambda>n. n\<lparr>n_type := otp_resent,
                        message := ''OTP resent to '' @ clientName n @ '' ('' @ clientPhone n @ '')''\<rparr>)
               (drop (length (notifications s)) (notifications (fst (sendOTP req e s)))))"
proof (intro conjI impI)
  assume a: "validationErrors req = [] \<and> findById (clientId req) s = Some c \<and> c_phone c = Some ph
      \<and> ph \<noteq> []
      \<and> i < length (otps s) \<and> client (otps s ! i) = clientId req
      \<and> ((\<forall>j<length (otps s). j \<noteq> i \<and> client (otps s ! j) = clientId req
              \<longrightarrow> createdAt (otps s ! j) < createdAt (otps s ! i))
         \<or> (\<forall>j<length (otps s). j \<noteq> i \<and> client (otps s ! j) = clientId req
                \<and> \<not> isUsed (otps s ! j)
              \<longrightarrow> createdAt (otps s ! j) < createdAt (otps s ! i)))
      \<and> isValid (otps s ! i) (now e)
      \<and> 0 \<le> now e - createdAt (otps s ! i) \<and> now e - createdAt (otps s ! i) < 30 * 1000"
  then have h: "validationErrors req = []" "findById (clientId req) s = Some c"
    "c_phone c = Some ph" "ph \<noteq> []" by simp_all
  from a have valid: "isValid (otps s ! i) (now e)" by simp
  then have unused: "\<not> isUsed (otps s ! i)" by (simp add: isValid_def)
  from a have newest: "\<forall>j<length (otps s). j \<noteq> i
      \<and> (client (otps s ! j) = clientId req \<and> \<not> isUsed (otps s ! j))
      \<longrightarrow> createdAt (otps s ! j) < createdAt (otps s ! i)"
    by blast
  from a unused have here: "i < length (otps s)"
    "client (otps s ! i) = clientId req \<and> \<not> isUsed (otps s ! i)" by simp_all
  have found: "findOne_latest (\<lambda>d. client d = clientId req \<and> \<not> isUsed d) (otps s)
      = Some (i, otps s ! i)"
    using here newest by (rule findOne_latest_newest)
  let ?w = "ceil_seconds (30 * 1000 - (now e - createdAt (otps s ! i)))"
  have w: "?w = \<lceil>(30 * 1000 - real_of_int (now e - createdAt (otps s ! i))) / 1000\<rceil>"
    by (simp add: ceil_seconds_ceiling)
  from a have "resendOTP req e s = (s, PleaseWait ?w)"
    by (intro resendOTP_throttled[OF h found valid]) simp
  then show "resendOTP req e s = (s, PleaseWait \<lceil>(30 * 1000 - real_of_int (now e - createdAt (otps s ! i))) / 1000\<rceil>)"
    unfolding w .
  from a have "1 \<le> ?w \<and> ?w \<le> 30"
    by (intro ceil_seconds_bounds) simp_all
  then show "1 \<le> \<lceil>(30 * 1000 - real_of_int (now e - createdAt (otps s ! i))) / 1000\<rceil>"
    and "\<lceil>(30 * 1000 - real_of_int (now e - createdAt (otps s ! i))) / 1000\<rceil> \<le> 30"
    unfolding w by simp_all
next
  assume other: "(\<not> (\<exists>r\<in>set (otps s). client r = clientId req \<and> isValid r (now e)
               \<and> now e - createdAt r < 30 * 1000))
      \<or> (k < length (otps s) \<and> client (otps s ! k) = clientId req \<and> \<not> isUsed (otps s ! k)
          \<and> (\<forall>j<length (otps s). j \<noteq> k \<and> client (otps s ! j) = clientId req
                 \<and> \<not> isUsed (otps s ! j)
               \<longrightarrow> createdAt (otps s ! j) < createdAt (otps s ! k))
          \<and> \<not> (isValid (otps s ! k) (now e) \<and> now e - createdAt (otps s ! k) < 30 * 1000))
      \<or> (newest_unused (clientId req) (otps s)
          \<and> k < length (otps s) \<and> client (otps s ! k) = clientId req
          \<and> (\<forall>j<length (otps s). j \<noteq> k \<and> client (otps s ! j) = clientId req
               \<longrightarrow> createdAt (otps s ! j) < createdAt (otps s ! k))
          \<and> \<not> (isValid (otps s ! k) (now e) \<and> now e - createdAt (otps s ! k) < 30 * 1000))"
  have free: "\<not> (\<exists>i d. findOne_latest (\<lambda>d. client d = clientId req \<and> \<not> isUsed d) (otps s)
                 = Some (i, d)
              \<and> isValid d (now e) \<and> now e - createdAt d < 30 * 1000)"
    using other
  proof (elim disjE)
    assume "\<not> (\<exists>r\<in>set (otps s). client r = clientId req \<and> isValid r (now e)
               \<and> now e - createdAt r < 30 * 1000)"
    then show ?thesis by (rule no_young_valid_lookup)
  next
    assume b: "newest_unused (clientId req) (otps s)
          \<and> k < length (otps s) \<and> client (otps s ! k) = clientId req
          \<and> (\<forall>j<length (otps s). j \<noteq> k \<and> client (otps s ! j) = clientId req
               \<longrightarrow> createdAt (otps s ! j) < createdAt (otps s ! k))
          \<and> \<not> (isValid (otps s ! k) (now e) \<and> now e - createdAt (otps s ! k) < 30 * 1000)"
    show ?thesis
    proof
      assume "\<exists>i d. findOne_latest (\<lambda>d. client d = clientId req \<and> \<not> isUsed d) (otps s)
                 = Some (i, d)
              \<and> isValid d (now e) \<and> now e - createdAt d < 30 * 1000"
      then obtain i d where
        f: "findOne_latest (\<lambda>d. client d = clientId req \<and> \<not> isUsed d) (otps s) = Some (i, d)"
        and d: "isValid d (now e)" "now e - createdAt d < 30 * 1000" by blast
      from findOne_latest_Some[OF f]
      have at: "i < length (otps s)" "otps s ! i = d" "client d = clientId req" "\<not> isUsed d"
        by simp_all
      then have mem: "d \<in> set (otps s)" by auto
      from b have "otps s ! k \<in> set (otps s)" by simp
      with b mem at have "createdAt (otps s ! k) \<le> createdAt d"
        unfolding newest_unused_def by blast
      with b at have "i = k" by force
      with at d b show False by simp
    qed
  next
    assume b: "k < length (otps s) \<and> client (otps s ! k) = clientId req \<and> \<not> isUsed (otps s ! k)
          \<and> (\<forall>j<length (otps s). j \<noteq> k \<and> client (otps s ! j) = clientId req
                 \<and> \<not> isUsed (otps s ! j)
               \<longrightarrow> createdAt (otps s ! j) < createdAt (otps s ! k))
          \<and> \<not> (isValid (otps s ! k) (now e) \<and> now e - createdAt (otps s ! k) < 30 * 1000)"
    then have here: "k < length (otps s)"
      "client (otps s ! k) = clientId req \<and> \<not> isUsed (otps s ! k)" by simp_all
    from b have newest: "\<forall>j<length (otps s). j \<noteq> k
        \<and> (client (otps s ! j) = clientId req \<and> \<not> isUsed (otps s ! j))
        \<longrightarrow> createdAt (otps s ! j) < createdAt (otps s ! k)"
      by blast
    have "findOne_latest (\<lambda>d. client d = clientId req \<and> \<not> isUsed d) (otps s)
        = Some (k, otps s ! k)"
      using here newest by (rule findOne_latest_newest)
    with b show ?thesis by auto
  qed
  have "otps (fst (resendOTP req e s)) = otps (fst (sendOTP req e s))
         \<and> clients (fst (resendOTP req e s)) = clients (fst (sendOTP req e s))
         \<and> snd (resendOTP req e s) = snd (sendOTP req e s)
         \<and> notifications (fst (resendOTP req e s))
           = notifications s @
             map (\<lambda>n. n\<lparr>n_type := otp_resent,
                        message := ''OTP resent to '' @ clientName n @ '' ('' @ clientPhone n @ '')''\<rparr>)
               (drop (length (notifications s)) (notifications (fst (sendOTP req e s))))"
  proof (cases rule: issue_path_cases[of req s])
    case reject
    from sendOTP_reject(1)[OF reject, of e] resendOTP_reject(1)[OF reject, of e]
      resendOTP_reject_eq[OF reject, of e]
    show ?thesis by simp
  next
    case (issue cl p)
    from sendOTP_issue[OF issue, of e] resendOTP_issue[OF issue free]
    show ?thesis by (simp split: option.splits)
  qed
  then show "otps (fst (resendOTP req e s)) = otps (fst (sendOTP req e s))"
    and "clients (fst (resendOTP req e s)) = clients (fst (sendOTP req e s))"
    and "snd (resendOTP req e s) = snd (sendOTP req e s)"
    and "notifications (fst (resendOTP req e s))
           = notifications s @
             map (\<lambda>n. n\<lparr>n_type := otp_resent,
                        message := ''OTP resent to '' @ clientName n @ '' ('' @ clientPhone n @ '')''\<rparr>)
               (drop (length (notifications s)) (notifications (fst (sendOTP req e s))))"
    by blast+
qed

theorem resendOTP_throttle_witness:
  "resendOTP (example_request (JString []) None) (example_env 320000 ''654321'')
     (example_db\<lparr>otps := [new_Otp 1 ''111111'' ''9876543210'' 1000,
                            new_Otp 1 ''123456'' ''9876543210'' 300000]\<rparr>)
   = (example_db\<lparr>otps := [new_Otp 1 ''111111'' ''9876543210'' 1000,
                            new_Otp 1 ''123456'' ''9876543210'' 300000]\<rparr>, PleaseWait 10)
   \<and> otps (fst (resendOTP (example_request (JString []) None) (example_env 50000 ''654321'')
       (example_db\<lparr>otps := [new_Otp 1 ''123456'' ''9876543210'' 1000]\<rparr>)))
     = [(new_Otp 1 ''123456'' ''9876543210'' 1000)\<lparr>isUsed := True\<rparr>,
        new_Otp 1 ''654321'' ''9876543210'' 50000]"
proof -
  let ?R = "example_request (JString []) None"
  let ?E = "example_env 320000 ''654321''"
  let ?S = "example_db\<lparr>otps := [new_Otp 1 ''111111'' ''9876543210'' 1000,
                                  new_Otp 1 ''123456'' ''9876543210'' 300000]\<rparr>"
  let ?E' = "example_env 50000 ''654321''"
  let ?S' = "example_db\<lparr>otps := [new_Otp 1 ''123456'' ''9876543210'' 1000]\<rparr>"
  have p1: "validationErrors ?R = [] \<and> findById (clientId ?R) ?S = Some example_client
      \<and> c_phone example_client = Some ''9876543210''
      \<and> ''9876543210'' \<noteq> []
      \<and> 1 < length (otps ?S) \<and> client (otps ?S ! 1) = clientId ?R
      \<and> ((\<forall>j<length (otps ?S). j \<noteq> 1 \<and> client (otps ?S ! j) = clientId ?R
              \<longrightarrow> createdAt (otps ?S ! j) < createdAt (otps ?S ! 1))
         \<or> (\<forall>j<length (otps ?S). j \<noteq> 1 \<and> client (otps ?S ! j) = clientId ?R
                \<and> \<not> isUsed (otps ?S ! j)
              \<longrightarrow> createdAt (otps ?S ! j) < createdAt (otps ?S ! 1)))
      \<and> isValid (otps ?S ! 1) (now ?E)
      \<and> 0 \<le> now ?E - createdAt (otps ?S ! 1) \<and> now ?E - createdAt (otps ?S ! 1) < 30 * 1000"
    by (simp add: example_defs findById_def new_Otp_def otp_ttl_def isValid_def less_Suc_eq)
  from resendOTP_throttle[where req = ?R and s = ?S and c = example_client
      and ph = "''9876543210''" and i = 1 and e = ?E] p1
  have t: "resendOTP ?R ?E ?S
      = (?S, PleaseWait \<lceil>(30 * 1000 - real_of_int (now ?E - createdAt (otps ?S ! 1))) / 1000\<rceil>)"
    by blast
  have w: "\<lceil>(30 * 1000 - real_of_int (now ?E - createdAt (otps ?S ! 1))) / 1000\<rceil> = 10"
    by (simp add: example_defs new_Otp_def)
  have p2: "(\<not> (\<exists>r\<in>set (otps ?S'). client r = clientId ?R \<and> isValid r (now ?E')
               \<and> now ?E' - createdAt r < 30 * 1000))
      \<or> (0 < length (otps ?S') \<and> client (otps ?S' ! 0) = clientId ?R \<and> \<not> isUsed (otps ?S' ! 0)
          \<and> (\<forall>j<length (otps ?S'). j \<noteq> 0 \<and> client (otps ?S' ! j) = clientId ?R
                 \<and> \<not> isUsed (otps ?S' ! j)
               \<longrightarrow> createdAt (otps ?S' ! j) < createdAt (otps ?S' ! 0))
          \<and> \<not> (isValid (otps ?S' ! 0) (now ?E') \<and> now ?E' - createdAt (otps ?S' ! 0) < 30 * 1000))"
    by (simp add: example_defs new_Otp_def otp_ttl_def isValid_def)
  from resendOTP_throttle[where req = ?R and s = ?S' and e = ?E' and k = 0] p2
  have "otps (fst (resendOTP ?R ?E' ?S')) = otps (fst (sendOTP ?R ?E' ?S'))"
    by blast
  also have "\<dots> = [(new_Otp 1 ''123456'' ''9876543210'' 1000)\<lparr>isUsed := True\<rparr>,
        new_Otp 1 ''654321'' ''9876543210'' 50000]"
    by (simp add: example_defs sendOTP_def findById_def updateMany_def new_Otp_def otp_ttl_def
        Let_def)
  finally show ?thesis using t w by simp
qed

section \<open>Verification\<close>

text \<open>
  Claim C7. When \<open>verifyOTP\<close> finds a matching unused record that is no longer valid
  (expired, or its attempts are exhausted), it stores the record with \<open>isUsed = true\<close>,
  changes nothing else, and answers "expired".
\<close>

theorem verifyOTP_expired:
  assumes "validationErrors req = []"
    and "findOne_latest (\<lambda>d. client d = clientId req \<and> otp d = castString (otp_body req) \<and> \<not> isUsed d)
           (otps s) = Some (i, r)"
    and "\<not> isValid r (now e)"
  shows "verifyOTP req e s = (s\<lparr>otps := (otps s)[i := r\<lparr>isUsed := True\<rparr>]\<rparr>, OtpExpired)
         \<and> i < length (otps s) \<and> otps s ! i = r
         \<and> isUsed (otps (fst (verifyOTP req e s)) ! i)"
  using assms findOne_latest_Some[OF assms(2)] by (simp add: verifyOTP_def)

theorem verifyOTP_expired_witness:
  "verifyOTP (example_request (JString ''123456'') None) (example_env 400000 [])
     (example_db\<lparr>otps := [new_Otp 1 ''123456'' ''9876543210'' 0]\<rparr>)
   = (example_db\<lparr>otps := [(new_Otp 1 ''123456'' ''9876543210'' 0)\<lparr>isUsed := True\<rparr>]\<rparr>,
      OtpExpired)"
  using verifyOTP_expired[of "example_request (JString ''123456'') None"
      "example_db\<lparr>otps := [new_Otp 1 ''123456'' ''9876543210'' 0]\<rparr>" 0
      "new_Otp 1 ''123456'' ''9876543210'' 0" "example_env 400000 []"]
  by (simp add: example_defs findOne_latest_def new_Otp_def otp_ttl_def isValid_def)



text \<open>
  Claim C4, as the code has it. The lookup of \<open>verifyOTP\<close> filters on the submitted code
  cast to a string, and the later comparison is strict. For a code submitted as a string
  the two agree: the record found carries that code, the call never gives the answer of
  the wrong-code branch (the one with \<open>attemptsLeft\<close>), and when the record found is valid
  the call stores it with \<open>isUsed = true\<close> (and one more attempt) and answers with
  success. The success answer is built from the client's document; every OTP record is
  created by \<open>sendOTP\<close> or \<open>resendOTP\<close> for a client that has one, and no handler removes
  a client (\<open>clients_on_file\<close>, an invariant by \<open>run_clients_on_file\<close>).
\<close>

theorem verifyOTP_wrong_code_branch_dead:
  "(otp_body req = JString v \<longrightarrow> (\<forall>n. snd (verifyOTP req e s) \<noteq> InvalidOTP (Some n)))
   \<and> (validationErrors req = [] \<and> otp_body req = JString v
       \<and> findOne_latest (\<lambda>d. client d = clientId req \<and> otp d = v \<and> \<not> isUsed d)
            (otps s) = Some (i, r)
       \<and> isValid r (now e) \<and> clients_on_file s
      \<longrightarrow> otp r = v
          \<and> (\<exists>c. findById (clientId req) s = Some c
                \<and> verifyOTP req e s =
                    (s\<lparr>otps := (otps s)[i := r\<lparr>attempts := attempts r + 1, isUsed := True\<rparr>]\<rparr>,
                     OtpVerified (c_id c) (c_name c) (c_phone c) (now e))))"
proof (intro conjI allI impI)
  fix n
  assume "otp_body req = JString v"
  then show "snd (verifyOTP req e s) \<noteq> InvalidOTP (Some n)"
    by (auto simp: verifyOTP_def Let_def split: option.splits dest: findOne_latest_Some)
next
  assume a: "validationErrors req = [] \<and> otp_body req = JString v
       \<and> findOne_latest (\<lambda>d. client d = clientId req \<and> otp d = v \<and> \<not> isUsed d)
            (otps s) = Some (i, r)
       \<and> isValid r (now e) \<and> clients_on_file s"
  then have found: "findOne_latest (\<lambda>d. client d = clientId req \<and> otp d = v \<and> \<not> isUsed d)
            (otps s) = Some (i, r)" by simp
  from findOne_latest_Some[OF found]
  have r: "i < length (otps s)" "otps s ! i = r" "client r = clientId req" "otp r = v"
    by simp_all
  show "otp r = v" by (rule r(4))
  from r(1,2) have "r \<in> set (otps s)" by auto
  with a r(3) obtain c where c: "findById (clientId req) s = Some c"
    by (auto simp: clients_on_file_def list_all_iff)
  show "\<exists>c. findById (clientId req) s = Some c
                \<and> verifyOTP req e s =
                    (s\<lparr>otps := (otps s)[i := r\<lparr>attempts := attempts r + 1, isUsed := True\<rparr>]\<rparr>,
                     OtpVerified (c_id c) (c_name c) (c_phone c) (now e))"
    using a c r(4) by (simp add: verifyOTP_def Let_def)
qed

theorem verifyOTP_wrong_code_branch_dead_witness:
  "verifyOTP (example_request (JString ''123456'') None) (example_env 2000 [])
     (example_db\<lparr>otps := [new_Otp 1 ''123456'' ''9876543210'' 1000]\<rparr>)
   = (example_db\<lparr>otps := [(new_Otp 1 ''123456'' ''9876543210'' 1000)
                              \<lparr>attempts := 1, isUsed := True\<rparr>]\<rparr>,
      OtpVerified 1 ''Asha'' (Some ''9876543210'') 2000)"
proof -
  let ?R = "example_request (JString ''123456'') None"
  let ?E = "example_env 2000 []"
  let ?S = "example_db\<lparr>otps := [new_Otp 1 ''123456'' ''9876543210'' 1000]\<rparr>"
  let ?r = "new_Otp 1 ''123456'' ''9876543210'' 1000"
  have h: "validationErrors ?R = [] \<and> otp_body ?R = JString ''123456''
       \<and> findOne_latest (\<lambda>d. client d = clientId ?R \<and> otp d = ''123456'' \<and> \<not> isUsed d)
            (otps ?S) = Some (0, ?r)
       \<and> isValid ?r (now ?E) \<and> clients_on_file ?S"
    by (simp add: example_defs findOne_latest_def new_Otp_def otp_ttl_def isValid_def
        clients_on_file_def findById_def)
  from verifyOTP_wrong_code_branch_dead[of ?R "''123456''" ?E ?S 0 ?r] h
  obtain c where c: "findById (clientId ?R) ?S = Some c"
    "verifyOTP ?R ?E ?S =
       (?S\<lparr>otps := (otps ?S)[0 := ?r\<lparr>attempts := attempts ?r + 1, isUsed := True\<rparr>]\<rparr>,
        OtpVerified (c_id c) (c_name c) (c_phone c) (now ?E))"
    by blast
  from c(1) have "c = example_client" by (simp add: example_defs findById_def)
  with c(2) show ?thesis by (simp add: example_defs new_Otp_def)
qed

text \<open>
  The claim as written fails for a code submitted as a JSON number: the filter, cast to a
  string, finds the record, the strict comparison of the stored string with the number
  fails, and the call takes the wrong-code branch. The record gets one more attempt, stays
  unused, and the answer is "Invalid OTP" with \<open>attemptsLeft = 2\<close>.
\<close>

theorem verifyOTP_numeric_code_counterexample:
  "verifyOTP (example_request (JNumber 123456) None) (example_env 2000 [])
     (example_db\<lparr>otps := [new_Otp 1 ''123456'' ''9876543210'' 1000]\<rparr>)
   = (example_db\<lparr>otps := [(new_Otp 1 ''123456'' ''9876543210'' 1000)\<lparr>attempts := 1\<rparr>]\<rparr>,
      InvalidOTP (Some 2))"
proof -
  have "toString 123456 = ''123456''"
    by (simp add: toString_def digits.simps)
  then show ?thesis
    by (simp add: example_defs verifyOTP_def findOne_latest_def new_Otp_def otp_ttl_def
        isValid_def Let_def)
qed

text \<open>
  Claim C2, evaluated on the code. A record is issued for client 1 with code 123456; a
  verification with the wrong code 000000 finds no record, because the lookup filters on
  the submitted code. The answer is "Invalid OTP" without \<open>attemptsLeft\<close>, and the
  record is untouched: its attempts counter is still 0.
\<close>

theorem verifyOTP_wrong_code_not_counted:
  "sendOTP (example_request (JString []) None) (example_env 1000 ''123456'') example_db
   = (example_db\<lparr>otps := [new_Otp 1 ''123456'' ''9876543210'' 1000]\<rparr>,
      OtpGenerated 1 ''Asha'' ''9876543210'' 301000 ''123456'')
   \<and> verifyOTP (example_request (JString ''000000'') None) (example_env 2000 [])
       (example_db\<lparr>otps := [new_Otp 1 ''123456'' ''9876543210'' 1000]\<rparr>)
     = (example_db\<lparr>otps := [new_Otp 1 ''123456'' ''9876543210'' 1000]\<rparr>, InvalidOTP None)
   \<and> attempts (new_Otp 1 ''123456'' ''9876543210'' 1000) = 0"
  by (simp add: example_defs sendOTP_def verifyOTP_def findOne_latest_def findById_def
      updateMany_def new_Otp_def otp_ttl_def Let_def)

text \<open>
  Claim C3, evaluated on the code. Three verifications with wrong codes leave the record
  of client 1 as it was; the third answers "Invalid OTP" without \<open>attemptsLeft\<close>; a
  fourth verification, with the correct code, succeeds.
\<close>

theorem three_wrong_codes_no_lockout:
  "run [VerifyOTP (example_request (JString ''000000'') None) (example_env 2000 []),
        VerifyOTP (example_request (JString ''111111'') None) (example_env 3000 []),
        VerifyOTP (example_request (JString ''222222'') None) (example_env 4000 [])]
     (example_db\<lparr>otps := [new_Otp 1 ''123456'' ''9876543210'' 1000]\<rparr>)
   = example_db\<lparr>otps := [new_Otp 1 ''123456'' ''9876543210'' 1000]\<rparr>
   \<and> snd (verifyOTP (example_request (JString ''222222'') None) (example_env 4000 [])
            (example_db\<lparr>otps := [new_Otp 1 ''123456'' ''9876543210'' 1000]\<rparr>)) = InvalidOTP None
   \<and> verifyOTP (example_request (JString ''123456'') None) (example_env 5000 [])
       (example_db\<lparr>otps := [new_Otp 1 ''123456'' ''9876543210'' 1000]\<rparr>)
     = (example_db\<lparr>otps := [(new_Otp 1 ''123456'' ''9876543210'' 1000)
                                \<lparr>attempts := 1, isUsed := True\<rparr>]\<rparr>,
        OtpVerified 1 ''Asha'' (Some ''9876543210'') 5000)"
  by (simp add: example_defs verifyOTP_def findOne_latest_def new_Otp_def otp_ttl_def isValid_def
      findById_def Let_def)

text \<open>
  Claim C5, as the code has it. No sequence of requests resets a used record: a record
  that is used stays in its place and stays used. Every successful verification consumes
  a record that was unused before and is used afterwards. And when the client has at most
  one unused record (the invariant that issue and resend establish, kept by every request:
  \<open>run_single_active\<close>) and a verification succeeds, then after any further requests
  that do not store the same code for the same client again, a verification with that code
  finds nothing and answers "Invalid OTP", whatever the time.
\<close>

theorem isUsed_terminal:
  "(i < length (otps s) \<and> isUsed (otps s ! i)
      \<longrightarrow> i < length (otps (run ops s)) \<and> isUsed (otps (run ops s) ! i))
   \<and> (length (active (clientId req) (otps s)) \<le> 1
       \<and> verifyOTP req e s = (s1, OtpVerified a b c d)
       \<and> (\<forall>x\<in>set ops. \<not> issues (clientId req) (castString (otp_body req)) x)
      \<longrightarrow> verifyOTP req e' (run ops s1) = (run ops s1, InvalidOTP None))
   \<and> (verifyOTP req e s = (s1, OtpVerified a b c d)
      \<longrightarrow> (\<exists>j. j < length (otps s) \<and> client (otps s ! j) = clientId req
               \<and> otp_body req = JString (otp (otps s ! j))
               \<and> \<not> isUsed (otps s ! j) \<and> isUsed (otps s1 ! j)))"
proof (intro conjI impI)
  assume "i < length (otps s) \<and> isUsed (otps s ! i)"
  then show "i < length (otps (run ops s))" and "isUsed (otps (run ops s) ! i)"
    using run_isUsed[of i s ops] by simp_all
next
  assume ok: "verifyOTP req e s = (s1, OtpVerified a b c d)"
  from verifyOTP_success[OF ok] obtain j r where
    f: "findOne_latest
          (\<lambda>d. client d = clientId req \<and> otp d = castString (otp_body req) \<and> \<not> isUsed d)
          (otps s) = Some (j, r)"
    and body: "otp_body req = JString (otp r)"
    and s1: "s1 = s\<lparr>otps := (otps s)[j := r\<lparr>attempts := attempts r + 1, isUsed := True\<rparr>]\<rparr>"
    by blast
  from findOne_latest_Some[OF f] s1 body
  have "j < length (otps s) \<and> client (otps s ! j) = clientId req
               \<and> otp_body req = JString (otp (otps s ! j))
               \<and> \<not> isUsed (otps s ! j) \<and> isUsed (otps s1 ! j)"
    by simp
  then show "\<exists>j. j < length (otps s) \<and> client (otps s ! j) = clientId req
               \<and> otp_body req = JString (otp (otps s ! j))
               \<and> \<not> isUsed (otps s ! j) \<and> isUsed (otps s1 ! j)" ..
next
  assume h: "length (active (clientId req) (otps s)) \<le> 1
       \<and> verifyOTP req e s = (s1, OtpVerified a b c d)
       \<and> (\<forall>x\<in>set ops. \<not> issues (clientId req) (castString (otp_body req)) x)"
  then have ok: "verifyOTP req e s = (s1, OtpVerified a b c d)" by simp
  from verifyOTP_success[OF ok] obtain j r where
    v: "validationErrors req = []"
    and f: "findOne_latest
              (\<lambda>d. client d = clientId req \<and> otp d = castString (otp_body req) \<and> \<not> isUsed d)
              (otps s) = Some (j, r)"
    and s1: "s1 = s\<lparr>otps := (otps s)[j := r\<lparr>attempts := attempts r + 1, isUsed := True\<rparr>]\<rparr>"
    by blast
  from findOne_latest_Some[OF f]
  have r: "j < length (otps s)" "otps s ! j = r" "client r = clientId req" "\<not> isUsed r"
    by simp_all
  let ?P = "\<lambda>d. client d = clientId req \<and> \<not> isUsed d"
  from h have one: "length (filter ?P (otps s)) \<le> 1" by (simp add: active_def)
  have "filter ?P ((otps s)[j := r\<lparr>attempts := attempts r + 1, isUsed := True\<rparr>]) = []"
    using one r by (intro filter_unique_update) simp_all
  then have "\<forall>d\<in>set (otps s1).
      client d = clientId req \<and> otp d = castString (otp_body req) \<longrightarrow> isUsed d"
    unfolding s1 by (auto simp: filter_empty_conv)
  with h have "\<forall>d\<in>set (otps (run ops s1)).
      client d = clientId req \<and> otp d = castString (otp_body req) \<longrightarrow> isUsed d"
    by (intro run_no_unused) simp_all
  then have "findOne_latest
               (\<lambda>d. client d = clientId req \<and> otp d = castString (otp_body req) \<and> \<not> isUsed d)
               (otps (run ops s1)) = None"
    unfolding findOne_latest_None by blast
  with v show "verifyOTP req e' (run ops s1) = (run ops s1, InvalidOTP None)"
    by (simp add: verifyOTP_def)
qed

theorem isUsed_terminal_witness:
  "snd (verifyOTP (example_request (JString ''123456'') None) (example_env 9000 [])
     (run [GetOTPStatus (example_request (JString []) None) (example_env 3000 []),
           VerifyOTP (example_request (JString ''000000'') None) (example_env 4000 []),
           SendOTP (example_request (JString []) None) (example_env 5000 ''654321'')]
        (example_db\<lparr>otps := [(new_Otp 1 ''123456'' ''9876543210'' 1000)
                                 \<lparr>attempts := 1, isUsed := True\<rparr>]\<rparr>)))
   = InvalidOTP None
   \<and> isUsed (otps (run [GetOTPStatus (example_request (JString []) None) (example_env 3000 []),
           VerifyOTP (example_request (JString ''000000'') None) (example_env 4000 []),
           SendOTP (example_request (JString []) None) (example_env 5000 ''654321'')]
        (example_db\<lparr>otps := [(new_Otp 1 ''123456'' ''9876543210'' 1000)
                                 \<lparr>attempts := 1, isUsed := True\<rparr>]\<rparr>)) ! 0)"
proof -
  let ?ops = "[GetOTPStatus (example_request (JString []) None) (example_env 3000 []),
           VerifyOTP (example_request (JString ''000000'') None) (example_env 4000 []),
           SendOTP (example_request (JString []) None) (example_env 5000 ''654321'')]"
  let ?R = "example_request (JString ''123456'') None"
  let ?S = "example_db\<lparr>otps := [new_Otp 1 ''123456'' ''9876543210'' 1000]\<rparr>"
  let ?S1 = "example_db\<lparr>otps := [(new_Otp 1 ''123456'' ''9876543210'' 1000)
                                 \<lparr>attempts := 1, isUsed := True\<rparr>]\<rparr>"
  have used: "0 < length (otps ?S1) \<and> isUsed (otps ?S1 ! 0)"
    by (simp add: example_defs)
  have h: "length (active (clientId ?R) (otps ?S)) \<le> 1
       \<and> verifyOTP ?R (example_env 2000 []) ?S
           = (?S1, OtpVerified 1 ''Asha'' (Some ''9876543210'') 2000)
       \<and> (\<forall>x\<in>set ?ops. \<not> issues (clientId ?R) (castString (otp_body ?R)) x)"
    by (simp add: example_defs verifyOTP_def findOne_latest_def findById_def new_Otp_def
        otp_ttl_def isValid_def active_def Let_def)
  from isUsed_terminal[where i = 0 and s = ?S1 and ops = ?ops] used
  have "isUsed (otps (run ?ops ?S1) ! 0)"
    by blast
  moreover from isUsed_terminal[of _ ?S ?ops ?R "example_env 2000 []" ?S1 1 "''Asha''"
      "Some ''9876543210''" 2000 "example_env 9000 []"] h
  have "verifyOTP ?R (example_env 9000 []) (run ?ops ?S1) = (run ?ops ?S1, InvalidOTP None)"
    by blast
  ultimately show ?thesis by simp
qed

text \<open>
  The claim as written fails when the code is issued again: the record of code 123456 is
  verified, \<open>sendOTP\<close> then stores a new record whose generated code is again 123456, and
  a verification with the same code succeeds a second time, on the new record.
\<close>

theorem reissued_code_counterexample:
  "verifyOTP (example_request (JString ''123456'') None) (example_env 2000 [])
     (example_db\<lparr>otps := [new_Otp 1 ''123456'' ''9876543210'' 1000]\<rparr>)
   = (example_db\<lparr>otps := [(new_Otp 1 ''123456'' ''9876543210'' 1000)
                              \<lparr>attempts := 1, isUsed := True\<rparr>]\<rparr>,
      OtpVerified 1 ''Asha'' (Some ''9876543210'') 2000)
   \<and> sendOTP (example_request (JString []) None) (example_env 3000 ''123456'')
       (example_db\<lparr>otps := [(new_Otp 1 ''123456'' ''9876543210'' 1000)
                                \<lparr>attempts := 1, isUsed := True\<rparr>]\<rparr>)
     = (example_db\<lparr>otps := [(new_Otp 1 ''123456'' ''9876543210'' 1000)
                                \<lparr>attempts := 1, isUsed := True\<rparr>,
                              new_Otp 1 ''123456'' ''9876543210'' 3000]\<rparr>,
        OtpGenerated 1 ''Asha'' ''9876543210'' 303000 ''123456'')
   \<and> verifyOTP (example_request (JString ''123456'') None) (example_env 4000 [])
       (example_db\<lparr>otps := [(new_Otp 1 ''123456'' ''9876543210'' 1000)
                                \<lparr>attempts := 1, isUsed := True\<rparr>,
                              new_Otp 1 ''123456'' ''9876543210'' 3000]\<rparr>)
     = (example_db\<lparr>otps := [(new_Otp 1 ''123456'' ''9876543210'' 1000)
                                \<lparr>attempts := 1, isUsed := True\<rparr>,
                              (new_Otp 1 ''123456'' ''9876543210'' 3000)
                                \<lparr>attempts := 1, isUsed := True\<rparr>]\<rparr>,
        OtpVerified 1 ''Asha'' (Some ''9876543210'') 4000)"
  by (simp add: example_defs sendOTP_def verifyOTP_def findOne_latest_def findById_def
      updateMany_def new_Otp_def otp_ttl_def isValid_def Let_def)

section \<open>Status\<close>

text \<open>
  Claim C8. \<open>getOTPStatus\<close> leaves the database as it is. For a client without any OTP
  record the answer is "no OTP found" (\<open>hasActiveOTP: false\<close>) with status 200. Otherwise
  the answer describes the client's most recent record: whether it is valid, its used
  flag, its attempts, and \<open>max(0, floor((expiresAt - now) / 1000))\<close> seconds left.
\<close>

theorem getOTPStatus_read_only:
  "fst (getOTPStatus req e s) = s
   \<and> ((\<forall>d\<in>set (otps s). client d \<noteq> paramsClientId req)
        \<longrightarrow> snd (getOTPStatus req e s) = NoOtpFound \<and> http_status (snd (getOTPStatus req e s)) = 200)
   \<and> ((\<exists>d\<in>set (otps s). client d = paramsClientId req)
        \<longrightarrow> (\<exists>i r. i < length (otps s) \<and> otps s ! i = r \<and> client r = paramsClientId req
               \<and> (\<forall>d\<in>set (otps s). client d = paramsClientId req \<longrightarrow> createdAt d \<le> createdAt r)
               \<and> snd (getOTPStatus req e s) =
                   OtpStatus (isValid r (now e)) (isUsed r) (attempts r)
                     (max 0 \<lfloor>real_of_int (expiresAt r - now e) / 1000\<rfloor>) (expiresAt r)))"
proof (intro conjI impI)
  show "fst (getOTPStatus req e s) = s"
    by (simp add: getOTPStatus_def split: option.splits)
next
  assume "\<forall>d\<in>set (otps s). client d \<noteq> paramsClientId req"
  then have "findOne_latest (\<lambda>d. client d = paramsClientId req) (otps s) = None"
    by (simp add: findOne_latest_None)
  then show "snd (getOTPStatus req e s) = NoOtpFound" by (simp add: getOTPStatus_def)
  then show "http_status (snd (getOTPStatus req e s)) = 200" by simp
next
  assume "\<exists>d\<in>set (otps s). client d = paramsClientId req"
  then have "findOne_latest (\<lambda>d. client d = paramsClientId req) (otps s) \<noteq> None"
    by (simp add: findOne_latest_None)
  then obtain i r where f: "findOne_latest (\<lambda>d. client d = paramsClientId req) (otps s) = Some (i, r)"
    by auto
  have "\<forall>d\<in>set (otps s). client d = paramsClientId req \<longrightarrow> createdAt d \<le> createdAt r"
    using findOne_latest_max[OF f] by blast
  moreover have "snd (getOTPStatus req e s) =
                   OtpStatus (isValid r (now e)) (isUsed r) (attempts r)
                     (max 0 \<lfloor>real_of_int (expiresAt r - now e) / 1000\<rfloor>) (expiresAt r)"
    using f by (simp add: getOTPStatus_def floor_seconds_floor)
  ultimately show "\<exists>i r. i < length (otps s) \<and> otps s ! i = r \<and> client r = paramsClientId req
               \<and> (\<forall>d\<in>set (otps s). client d = paramsClientId req \<longrightarrow> createdAt d \<le> createdAt r)
               \<and> snd (getOTPStatus req e s) =
                   OtpStatus (isValid r (now e)) (isUsed r) (attempts r)
                     (max 0 \<lfloor>real_of_int (expiresAt r - now e) / 1000\<rfloor>) (expiresAt r)"
    using findOne_latest_Some[OF f] by blast
qed

theorem getOTPStatus_read_only_witness:
  "getOTPStatus (example_request (JString []) None) (example_env 2500 []) example_db
   = (example_db, NoOtpFound)
   \<and> getOTPStatus (example_request (JString []) None) (example_env 2500 [])
       (example_db\<lparr>otps := [new_Otp 1 ''123456'' ''9876543210'' 1000]\<rparr>)
     = (example_db\<lparr>otps := [new_Otp 1 ''123456'' ''9876543210'' 1000]\<rparr>,
        OtpStatus True False 0 298 301000)"
  using getOTPStatus_read_only[of "example_request (JString []) None" "example_env 2500 []" example_db]
    getOTPStatus_read_only[of "example_request (JString []) None" "example_env 2500 []"
      "example_db\<lparr>otps := [new_Otp 1 ''123456'' ''9876543210'' 1000]\<rparr>"]
  by (simp add: example_defs getOTPStatus_def findOne_latest_def new_Otp_def otp_ttl_def
      isValid_def floor_seconds_def)

end
